theory Spec2Isabelle
  imports Main "HOL-Library.FSet" "HOL-Library.List_Lexorder" "HOL-Library.Char_ord"
begin

section \<open>Go maps\<close>

text \<open>
  A Go \<^verbatim>\<open>map[string]string\<close> that the code only indexes is a partial function; indexing
  a missing key yields the zero value of the element type, the empty string.
\<close>

definition index :: "(string \<rightharpoonup> string) \<Rightarrow> string \<Rightarrow> string" where
  "index m k = (case m k of None \<Rightarrow> [] | Some v \<Rightarrow> v)"

text \<open>
  A Go \<^verbatim>\<open>map[string]string\<close> that the code ranges over, or takes the \<^verbatim>\<open>len\<close> of, is the
  list of its entries in the order the \<^verbatim>\<open>range\<close> visits them. The keys of a Go map are
  distinct, so \<^verbatim>\<open>len\<close> is the length of the list.
\<close>

type_synonym gomap = "(string \<times> string) list"

section \<open>The namespace lister of AppliedClusterResourceQuota\<close>

text \<open>
  \<^verbatim>\<open>pkg/quota/generated/listers/quota/v1/appliedclusterresourcequota.go\<close>.
  The dynamic value of an \<^verbatim>\<open>interface{}\<close> returned by the indexer is the nil interface, a
  \<^verbatim>\<open>*v1.AppliedClusterResourceQuota\<close> (\<open>None\<close> is the nil pointer) or a value of another type.
  The type \<open>'q\<close> stands for the quota objects.
\<close>

datatype 'q iface = NilInterface | QuotaPtr "'q option" | OtherType

text \<open>
  An \<^verbatim>\<open>error\<close> is what \<^verbatim>\<open>errors.NewNotFound\<close> builds from the resource and the name,
  or any other error, which the indexer may return.
\<close>

datatype error = NotFound string string | OtherError string

text \<open>\<^verbatim>\<open>cache.Indexer\<close> is an interface; the lister uses its method \<^verbatim>\<open>GetByKey\<close> only.\<close>

record 'q appliedClusterResourceQuotaNamespaceLister =
  indexer :: "string \<Rightarrow> 'q iface \<times> bool \<times> error option"
  namespace :: string

text \<open>
  \<^verbatim>\<open>Get\<close> returns a pointer and an error; the type assertion \<^verbatim>\<open>obj.(*T)\<close> of its last line
  panics when \<^verbatim>\<open>obj\<close> is the nil interface or holds another type.
\<close>

datatype 'q get_result = Return "'q option" "error option" | TypeAssertionPanic

definition Get :: "'q appliedClusterResourceQuotaNamespaceLister \<Rightarrow> string \<Rightarrow> 'q get_result" where
  "Get s name =
     (case indexer s (namespace s @ ''/'' @ name) of
        (obj, exists, err) \<Rightarrow>
          if err \<noteq> None then Return None err
          else if \<not> exists then Return None (Some (NotFound ''appliedclusterresourcequota'' name))
          else (case obj of
                  QuotaPtr p \<Rightarrow> Return p None
                | NilInterface \<Rightarrow> TypeAssertionPanic
                | OtherType \<Rightarrow> TypeAssertionPanic))"

section \<open>Label matching in the Prometheus tests\<close>

subsection \<open>\<^verbatim>\<open>prometheusTargets.Expect\<close>\<close>

record Target =
  Labels :: "string \<rightharpoonup> string"
  Health :: string
  ScrapeUrl :: string

text \<open>
  The inner loop of \<^verbatim>\<open>Expect\<close>: \<^verbatim>\<open>match\<close> starts true and the loop breaks with false at
  the first entry of the selector whose value differs from \<^verbatim>\<open>target.Labels[k]\<close>.
\<close>

fun Expect_match :: "gomap \<Rightarrow> (string \<rightharpoonup> string) \<Rightarrow> bool" where
  "Expect_match [] targetLabels = True"
| "Expect_match ((k, v) # l) targetLabels =
     (if index targetLabels k \<noteq> v then False else Expect_match l targetLabels)"

text \<open>
  \<^verbatim>\<open>Expect\<close> returns nil at the first target that passes the three checks, and an error
  built from its arguments when no target does. \<^verbatim>\<open>regexp.MustCompile\<close> is a parameter:
  it yields the matcher of a pattern, or \<open>None\<close> where it panics.
\<close>

datatype expect_result = Nil | NoMatchFor gomap string string | MustCompilePanic

fun Expect ::
  "(string \<Rightarrow> (string \<Rightarrow> bool) option) \<Rightarrow> Target list \<Rightarrow> gomap \<Rightarrow> string \<Rightarrow> string \<Rightarrow> expect_result"
where
  "Expect MustCompile [] l health scrapeURLPattern = NoMatchFor l health scrapeURLPattern"
| "Expect MustCompile (target # ts) l health scrapeURLPattern =
     (if \<not> Expect_match l (Labels target) then Expect MustCompile ts l health scrapeURLPattern
      else if health \<noteq> Health target then Expect MustCompile ts l health scrapeURLPattern
      else (case MustCompile scrapeURLPattern of
              None \<Rightarrow> MustCompilePanic
            | Some MatchString \<Rightarrow>
                if \<not> MatchString (ScrapeUrl target)
                then Expect MustCompile ts l health scrapeURLPattern
                else Nil))"

subsection \<open>\<^verbatim>\<open>findMetricsWithLabels\<close>\<close>

text \<open>
  A \<^verbatim>\<open>dto.LabelPair\<close> has two optional strings; its getters return the empty string for a
  missing one. Of a \<^verbatim>\<open>dto.Metric\<close> the function reads the labels only, and a
  \<^verbatim>\<open>*dto.MetricFamily\<close> is nil (\<open>None\<close>) or the list of its metrics.
\<close>

datatype LabelPair = LabelPair "string option" "string option"

fun GetName :: "LabelPair \<Rightarrow> string" where
  "GetName (LabelPair n v) = (case n of None \<Rightarrow> [] | Some s \<Rightarrow> s)"

fun GetValue :: "LabelPair \<Rightarrow> string" where
  "GetValue (LabelPair n v) = (case v of None \<Rightarrow> [] | Some s \<Rightarrow> s)"

record dto_Metric =
  Label :: "LabelPair list"

text \<open>
  The inner loop over \<^verbatim>\<open>m.Label\<close>: a label whose name the selector has is added to
  \<^verbatim>\<open>matched\<close> when the values agree, and ends the loop when they differ.
\<close>

fun matched_loop :: "gomap \<Rightarrow> LabelPair list \<Rightarrow> string fset \<Rightarrow> string fset" where
  "matched_loop labels [] matched = matched"
| "matched_loop labels (l # ls) matched =
     (case map_of labels (GetName l) of
        Some expect \<Rightarrow>
          if expect \<noteq> GetValue l then matched
          else matched_loop labels ls (finsert (GetName l) matched)
      | None \<Rightarrow> matched_loop labels ls matched)"

fun findMetricsWithLabels_loop :: "dto_Metric list \<Rightarrow> gomap \<Rightarrow> dto_Metric list" where
  "findMetricsWithLabels_loop [] labels = []"
| "findMetricsWithLabels_loop (m # ms) labels =
     (if fcard (matched_loop labels (Label m) {||}) \<noteq> length labels
      then findMetricsWithLabels_loop ms labels
      else m # findMetricsWithLabels_loop ms labels)"

definition findMetricsWithLabels :: "dto_Metric list option \<Rightarrow> gomap \<Rightarrow> dto_Metric list" where
  "findMetricsWithLabels f labels =
     (case f of None \<Rightarrow> [] | Some ms \<Rightarrow> findMetricsWithLabels_loop ms labels)"

section \<open>The alerts test\<close>

text \<open>
  The test \<^verbatim>\<open>shouldn't report any alerts in firing or pending state apart from Watchdog and
  AlertmanagerReceiversNotConfigured and have no gaps in Watchdog firing\<close>, from the creation
  of its four accumulators on. The four accumulators are \<^verbatim>\<open>sets.String\<close> values:
  \<^verbatim>\<open>Insert\<close> is \<open>finsert\<close>, \<^verbatim>\<open>Union\<close> is \<open>|\<union>|\<close>, \<^verbatim>\<open>len\<close> is \<open>fcard\<close> and \<^verbatim>\<open>List\<close>, which
  returns the elements sorted, is \<open>sorted_list_of_fset\<close>.
\<close>

record Violations =
  knownViolations :: "string fset"
  unexpectedViolations :: "string fset"
  unexpectedViolationsAsFlakes :: "string fset"
  debug :: "string fset"

definition NewViolations :: Violations where
  "NewViolations =
     \<lparr>knownViolations = {||}, unexpectedViolations = {||},
      unexpectedViolationsAsFlakes = {||}, debug = {||}\<rparr>"

text \<open>
  A \<^verbatim>\<open>model.Sample\<close>: its labels, and its value as \<^verbatim>\<open>%s\<close> prints it, which is the one
  use the test makes of the value.
\<close>

record Sample =
  Metric :: "string \<rightharpoonup> string"
  Value :: string

record MetricCondition =
  Selector :: gomap
  Text :: string

type_synonym MetricConditions = "MetricCondition list"

text \<open>
  The package \<^verbatim>\<open>helper\<close> (\<^verbatim>\<open>test/extended/util/prometheus\<close>) is imported by the test and
  is not among the files verified here, so the four functions the test calls are parameters.
  \<^verbatim>\<open>RunQuery\<close> stands for the call with the namespace, pod, URL and token of the test; it
  returns the error, or the vector \<^verbatim>\<open>Data.Result\<close> of the response.
\<close>

record helper =
  RunQuery :: "string \<Rightarrow> error + Sample list"
  Matches :: "MetricConditions \<Rightarrow> Sample \<Rightarrow> MetricCondition option"
  StripLabels :: "(string \<rightharpoonup> string) \<Rightarrow> string list \<Rightarrow> (string \<rightharpoonup> string)"
  LabelsAsSelector :: "(string \<rightharpoonup> string) \<Rightarrow> string"

text \<open>\<^verbatim>\<open>strings.Join\<close>.\<close>

fun Join :: "string list \<Rightarrow> string \<Rightarrow> string" where
  "Join [] sep = []"
| "Join [x] sep = x"
| "Join (x # y # zs) sep = x @ sep @ Join (y # zs) sep"

text \<open>
  What the test reports: a line logged by \<^verbatim>\<open>framework.Logf\<close>, the failure raised by
  \<^verbatim>\<open>framework.Failf\<close>, the flake recorded by \<^verbatim>\<open>testresult.Flakef\<close>, and the failure of an
  \<^verbatim>\<open>o.Expect(err).NotTo(o.HaveOccurred(), ...)\<close> with its description. \<open>Failf\<close> and
  \<open>ExpectFailed\<close> end the test.
\<close>

datatype event = Logf string | Failf string | Flakef string | ExpectFailed string

fun is_Failf :: "event \<Rightarrow> bool" where
  "is_Failf (Failf m) = True"
| "is_Failf e = False"

fun is_Logf :: "event \<Rightarrow> bool" where
  "is_Logf (Logf m) = True"
| "is_Logf e = False"

definition firingAlertsWithBugs :: MetricConditions where
  "firingAlertsWithBugs =
     [\<lparr>Selector = [(''alertname'', ''AggregatedAPIDown''), (''name'', ''v1alpha1.wardle.example.com'')],
       Text = ''https://bugzilla.redhat.com/show_bug.cgi?id=1933144''\<rparr>]"

definition pendingAlertsWithBugs :: MetricConditions where
  "pendingAlertsWithBugs = []"

definition allowedPendingAlerts :: MetricConditions where
  "allowedPendingAlerts =
     [\<lparr>Selector = [(''alertname'', ''HighOverallControlPlaneCPU'')],
       Text = ''high CPU utilization during e2e runs is normal''\<rparr>]"

subsection \<open>The three queries\<close>

definition watchdogQuery :: "string \<Rightarrow> string" where
  \<open>watchdogQuery testDuration =
     ''changes((max((ALERTS{alertstate="firing",alertname="Watchdog",severity="none"}) or (absent(ALERTS{alertstate="firing",alertname="Watchdog",severity="none"})*0)))[''
     @ testDuration @ '':1s]) > 1''\<close>

definition firingAlertQuery :: "string \<Rightarrow> string" where
  \<open>firingAlertQuery testDuration =
     ''\<newline>sort_desc(\<newline>count_over_time(ALERTS{alertstate="firing",severity!="info",alertname!~"Watchdog|AlertmanagerReceiversNotConfigured"}[''
     @ testDuration @ '':1s])\<newline>) > 0\<newline>''\<close>

definition pendingAlertQuery :: string where
  \<open>pendingAlertQuery =
     ''ALERTS{alertname!~"Watchdog|AlertmanagerReceiversNotConfigured",alertstate="pending",severity!="info"}''\<close>

subsection \<open>The Watchdog check\<close>

definition watchdogViolation :: string where
  "watchdogViolation =
     ''Watchdog alert had missing intervals during the run, which may be a sign of a Prometheus outage in violation of the prometheus query SLO of 100% uptime during normal execution''"

definition watchdog_step :: "Violations \<Rightarrow> Sample list \<Rightarrow> Violations" where
  "watchdog_step s result =
     (if length result > 0
      then s\<lparr>unexpectedViolations := finsert watchdogViolation (unexpectedViolations s)\<rparr>
      else s)"

definition watchdog_check :: "helper \<Rightarrow> string \<Rightarrow> Violations \<Rightarrow> string + Violations" where
  "watchdog_check h testDuration s =
     (case RunQuery h (watchdogQuery testDuration) of
        Inl err \<Rightarrow> Inl ''unable to check watchdog alert over test window''
      | Inr result \<Rightarrow> Inr (watchdog_step s result))"

subsection \<open>Firing alerts\<close>

definition firing_violation :: "helper \<Rightarrow> Sample \<Rightarrow> string" where
  "firing_violation h series =
     (let labels = StripLabels h (Metric series) [''alertname'', ''alertstate'', ''prometheus'']
      in ''alert '' @ index (Metric series) ''alertname'' @ '' fired for '' @ Value series
         @ '' seconds with labels: '' @ LabelsAsSelector h labels)"

definition firing_step :: "helper \<Rightarrow> MetricConditions \<Rightarrow> Violations \<Rightarrow> Sample \<Rightarrow> Violations" where
  "firing_step h withBugs s series =
     (let violation = firing_violation h series
      in case Matches h withBugs series of
           Some cause \<Rightarrow>
             s\<lparr>knownViolations :=
                 finsert (violation @ '' (open bug: '' @ Text cause @ '')'') (knownViolations s)\<rparr>
         | None \<Rightarrow>
             s\<lparr>unexpectedViolations := finsert violation (unexpectedViolations s)\<rparr>)"

definition firing_check :: "helper \<Rightarrow> string \<Rightarrow> Violations \<Rightarrow> string + Violations" where
  "firing_check h testDuration s =
     (case RunQuery h (firingAlertQuery testDuration) of
        Inl err \<Rightarrow> Inl ''unable to check firing alerts during test''
      | Inr result \<Rightarrow> Inr (foldl (firing_step h firingAlertsWithBugs) s result))"

subsection \<open>Pending alerts\<close>

definition pending_violation :: "helper \<Rightarrow> Sample \<Rightarrow> string" where
  "pending_violation h series =
     (let labels = StripLabels h (Metric series) [''alertname'', ''alertstate'', ''prometheus'']
      in ''alert '' @ index (Metric series) ''alertname'' @ '' pending for '' @ Value series
         @ '' seconds with labels: '' @ LabelsAsSelector h labels)"

definition pending_step ::
  "helper \<Rightarrow> MetricConditions \<Rightarrow> MetricConditions \<Rightarrow> Violations \<Rightarrow> Sample \<Rightarrow> Violations"
where
  "pending_step h allowed withBugs s series =
     (let violation = pending_violation h series
      in case Matches h allowed series of
           Some cause \<Rightarrow>
             s\<lparr>debug := finsert (violation @ '' (allowed: '' @ Text cause @ '')'') (debug s)\<rparr>
         | None \<Rightarrow>
             (case Matches h withBugs series of
                Some cause \<Rightarrow>
                  s\<lparr>knownViolations :=
                      finsert (violation @ '' (open bug: '' @ Text cause @ '')'') (knownViolations s)\<rparr>
              | None \<Rightarrow>
                  s\<lparr>unexpectedViolationsAsFlakes :=
                      finsert violation (unexpectedViolationsAsFlakes s)\<rparr>))"

definition pending_check :: "helper \<Rightarrow> Violations \<Rightarrow> string + Violations" where
  "pending_check h s =
     (case RunQuery h pendingAlertQuery of
        Inl err \<Rightarrow> Inl ''unable to retrieve pending alerts after upgrade''
      | Inr result \<Rightarrow>
          Inr (foldl (pending_step h allowedPendingAlerts pendingAlertsWithBugs) s result))"

subsection \<open>The verdict\<close>

definition report :: "Violations \<Rightarrow> event list" where
  "report s =
     (if fcard (debug s) > 0
      then [Logf (''Alerts were detected during test run which are allowed:\<newline>\<newline>''
                  @ Join (sorted_list_of_fset (debug s)) ''\<newline>'')]
      else [])
     @ (if fcard (unexpectedViolations s) > 0
        then [Failf (''Unexpected alerts fired or pending after the test run:\<newline>\<newline>''
                     @ Join (sorted_list_of_fset (unexpectedViolations s)) ''\<newline>'')]
        else (let flakes = {||} |\<union>| knownViolations s |\<union>| unexpectedViolations s
                             |\<union>| unexpectedViolationsAsFlakes s
              in if fcard flakes > 0
                 then [Flakef (''Unexpected alert behavior during test:\<newline>\<newline>''
                               @ Join (sorted_list_of_fset flakes) ''\<newline>'')]
                 else [])
             @ [Logf ''No alerts fired during test run''])"

text \<open>
  The whole test: the accumulators when it ends, and what it reported. A failed
  \<^verbatim>\<open>o.Expect\<close> ends it where it stands.
\<close>

definition alertsTest :: "helper \<Rightarrow> string \<Rightarrow> Violations \<times> event list" where
  "alertsTest h testDuration =
     (case watchdog_check h testDuration NewViolations of
        Inl description \<Rightarrow> (NewViolations, [ExpectFailed description])
      | Inr s1 \<Rightarrow>
          (case firing_check h testDuration s1 of
             Inl description \<Rightarrow> (s1, [ExpectFailed description])
           | Inr s2 \<Rightarrow>
               (case pending_check h s2 of
                  Inl description \<Rightarrow> (s2, [ExpectFailed description])
                | Inr s3 \<Rightarrow> (s3, report s3))))"

subsection \<open>The condition matcher of the helper package\<close>

text \<open>
  Modelled from the spec: \<^verbatim>\<open>MetricConditions.Matches\<close> of the package \<^verbatim>\<open>helper\<close>, which
  the test calls and whose source is not among the files verified here. The spec: a series
  matches a condition if, for every key in the condition's selector, the series carries
  that key with an identical value (the series may carry more labels); the conditions are
  evaluated in list order and the first one that matches wins.
\<close>

definition condition_matches :: "MetricCondition \<Rightarrow> Sample \<Rightarrow> bool" where
  "condition_matches c series = list_all (\<lambda>(k, v). Metric series k = Some v) (Selector c)"

fun MetricConditions_Matches :: "MetricConditions \<Rightarrow> Sample \<Rightarrow> MetricCondition option" where
  "MetricConditions_Matches [] series = None"
| "MetricConditions_Matches (c # cs) series =
     (if condition_matches c series then Some c else MetricConditions_Matches cs series)"

subsection \<open>What the backend answers to the Watchdog query\<close>

text \<open>
  The query of the test is PromQL text, and the backend answers what it reads there. The
  model of the backend reads a query of the form \<^verbatim>\<open>changes(E[d:1s]) > n\<close>, where \<^verbatim>\<open>E\<close> is the
  indicator of the Watchdog alert, with any duration \<^verbatim>\<open>d\<close> and any decimal \<^verbatim>\<open>n\<close>, and takes
  the threshold \<^verbatim>\<open>n\<close> from the text. Any other text is an error of the backend.
\<close>

definition watchdogSelector :: string where
  \<open>watchdogSelector = ''ALERTS{alertstate="firing",alertname="Watchdog",severity="none"}''\<close>

definition indicatorExpr :: string where
  "indicatorExpr = ''(max(('' @ watchdogSelector @ '') or (absent('' @ watchdogSelector @ '')*0)))''"

fun strip_prefix :: "string \<Rightarrow> string \<Rightarrow> string option" where
  "strip_prefix [] s = Some s"
| "strip_prefix (p # ps) [] = None"
| "strip_prefix (p # ps) (c # cs) = (if p = c then strip_prefix ps cs else None)"

definition is_digit :: "char \<Rightarrow> bool" where
  "is_digit c = (c \<in> set ''0123456789'')"

definition decimal :: "string \<Rightarrow> nat" where
  "decimal ds = foldl (\<lambda>n c. 10 * n + (of_char c - 48)) 0 ds"

text \<open>
  The threshold of a query: the text starts with \<^verbatim>\<open>changes(\<close>, the indicator and \<^verbatim>\<open>[\<close>, and,
  read from its end, it has the digits of the threshold after \<^verbatim>\<open>:1s]) > \<close>; what lies
  between is the duration.
\<close>

definition read_threshold :: "string \<Rightarrow> nat option" where
  "read_threshold query =
     (case strip_prefix (''changes('' @ indicatorExpr @ ''['') query of
        None \<Rightarrow> None
      | Some rest \<Rightarrow>
          (let digits = takeWhile is_digit (rev rest)
           in case strip_prefix (rev '':1s]) > '') (dropWhile is_digit (rev rest)) of
                None \<Rightarrow> None
              | Some duration \<Rightarrow> if digits = [] then None else Some (decimal (rev digits))))"

text \<open>
  The subquery \<^verbatim>\<open>[d:1s]\<close> evaluates the indicator once per second of the window. At an
  instant where the Watchdog alert fires, \<^verbatim>\<open>max(ALERTS{...})\<close> is the value of the alert
  series, 1; at an instant where it is absent, \<^verbatim>\<open>absent(ALERTS{...})\<close> is 1 and the product
  with 0 is the sample. The window is given as the list of those instants, \<open>True\<close> where
  the alert fires.
\<close>

definition indicator :: "bool \<Rightarrow> int" where
  "indicator firing = (if firing then 1 else 1 * 0)"

text \<open>
  \<^verbatim>\<open>changes\<close> counts the samples of a series that differ from the sample before them.
\<close>

fun changes :: "int list \<Rightarrow> nat" where
  "changes [] = 0"
| "changes [x] = 0"
| "changes (x # y # zs) = (if x \<noteq> y then 1 else 0) + changes (y # zs)"

text \<open>The decimal digits of a number, for the value of the sample.\<close>

fun FormatNat :: "nat \<Rightarrow> string" where
  "FormatNat n =
     (if n < 10 then [char_of (48 + n)]
      else FormatNat (n div 10) @ [char_of (48 + n mod 10)])"

declare FormatNat.simps [simp del]

text \<open>
  The answer to a query that is read with threshold \<open>n\<close>: no series for a window without
  samples; otherwise the one series of \<^verbatim>\<open>changes\<close>, which the comparison \<^verbatim>\<open>> n\<close> keeps when
  its value is above \<open>n\<close> and drops when it is not.
\<close>

definition promql_answer :: "bool list \<Rightarrow> string \<Rightarrow> error + Sample list" where
  "promql_answer window query =
     (case read_threshold query of
        None \<Rightarrow> Inl (OtherError ''bad_data: parse error'')
      | Some n \<Rightarrow>
          Inr (if window = [] then []
               else map (\<lambda>c. \<lparr>Metric = Map.empty, Value = FormatNat c\<rparr>)
                      (filter (\<lambda>c. c > n) [changes (map indicator window)])))"

text \<open>
  The number of transitions of a window, as the places where two neighbouring instants
  differ.
\<close>

definition transitions :: "bool list \<Rightarrow> nat" where
  "transitions window =
     length (filter (\<lambda>i. window ! i \<noteq> window ! Suc i) [0..<length window - 1])"

section \<open>Example inputs\<close>

text \<open>A lister over an indexer that stores one quota, the number 7, under \<open>ns/for-team\<close>.\<close>

definition example_lister :: "nat appliedClusterResourceQuotaNamespaceLister" where
  "example_lister =
     \<lparr>indexer = (\<lambda>key. if key = ''ns/for-team'' then (QuotaPtr (Some 7), True, None)
                        else (NilInterface, False, None)),
      namespace = ''ns''\<rparr>"

text \<open>
  A lister over an indexer that reports, under every key, a nil pointer of the quota type
  as existing.
\<close>

definition typed_nil_indexer :: "string \<Rightarrow> nat iface \<times> bool \<times> error option" where
  "typed_nil_indexer key = (QuotaPtr None, True, None)"

definition typed_nil_lister :: "nat appliedClusterResourceQuotaNamespaceLister" where
  "typed_nil_lister = \<lparr>indexer = typed_nil_indexer, namespace = ''ns''\<rparr>"

text \<open>
  An instance of the helper package: the backend answers the three queries of the test
  with the given responses, \<open>Matches\<close> is the matcher above, \<open>StripLabels\<close> removes the
  named labels and \<open>LabelsAsSelector\<close> prints the severity label.
\<close>

definition example_helper ::
  "string \<Rightarrow> error + Sample list \<Rightarrow> error + Sample list \<Rightarrow> error + Sample list \<Rightarrow> helper"
where
  "example_helper testDuration watchdog firing pending =
     \<lparr>RunQuery = (\<lambda>query.
         if query = watchdogQuery testDuration then watchdog
         else if query = firingAlertQuery testDuration then firing
         else if query = pendingAlertQuery then pending
         else Inl (OtherError ''unknown query'')),
      Matches = MetricConditions_Matches,
      StripLabels = (\<lambda>m names k. if k \<in> set names then None else m k),
      LabelsAsSelector = (\<lambda>l. ''{severity='' @ index l ''severity'' @ ''}'')\<rparr>"

text \<open>
  Series: a firing one with an open bug, an unexpected firing one, the same from a second
  Prometheus, another unexpected firing one, and a pending one that is allowed, from two
  Prometheus.
\<close>

definition wardle_firing :: Sample where
  "wardle_firing =
     \<lparr>Metric = map_of [(''alertname'', ''AggregatedAPIDown''), (''alertstate'', ''firing''),
                       (''name'', ''v1alpha1.wardle.example.com''), (''severity'', ''warning'')],
      Value = ''120''\<rparr>"

definition etcd_firing :: Sample where
  "etcd_firing =
     \<lparr>Metric = map_of [(''alertname'', ''etcdMembersDown''), (''alertstate'', ''firing''),
                       (''severity'', ''critical'')],
      Value = ''42''\<rparr>"


definition kube_firing :: Sample where
  "kube_firing =
     \<lparr>Metric = map_of [(''alertname'', ''KubePodCrashLooping''), (''alertstate'', ''firing''),
                       (''severity'', ''warning'')],
      Value = ''7''\<rparr>"


definition cpu_pending :: Sample where
  "cpu_pending =
     \<lparr>Metric = map_of [(''alertname'', ''HighOverallControlPlaneCPU''), (''alertstate'', ''pending''),
                       (''severity'', ''warning'')],
      Value = ''1''\<rparr>"

text \<open>
  A helper whose backend returns nothing, one whose backend returns three firing series
  and a pending one, a condition that matches every series of severity warning, and
  accumulators that hold one known violation already.
\<close>

definition quiet_helper :: helper where
  "quiet_helper = example_helper ''3s'' (Inr []) (Inr []) (Inr [])"

definition busy_helper :: helper where
  "busy_helper =
     example_helper ''3s'' (Inr []) (Inr [etcd_firing, wardle_firing, kube_firing]) (Inr [cpu_pending])"

definition warning_condition :: MetricCondition where
  "warning_condition = \<lparr>Selector = [(''severity'', ''warning'')], Text = ''warnings are tolerated''\<rparr>"

definition earlier_violations :: Violations where
  "earlier_violations = NewViolations\<lparr>knownViolations := {|''earlier''|}\<rparr>"

section \<open>Properties of the lister\<close>

lemma Get_error: "indexer s (namespace s @ ''/'' @ name) = (obj, ex, Some e) \<Longrightarrow> Get s name = Return None (Some e)"
  by (simp add: Get_def)

lemma Get_missing:
  "indexer s (namespace s @ ''/'' @ name) = (obj, False, None) \<Longrightarrow>
   Get s name = Return None (Some (NotFound ''appliedclusterresourcequota'' name))"
  by (simp add: Get_def)

lemma Get_stored:
  "indexer s (namespace s @ ''/'' @ name) = (QuotaPtr p, True, None) \<Longrightarrow> Get s name = Return p None"
  by (simp add: Get_def)

lemma Get_panic:
  "indexer s (namespace s @ ''/'' @ name) = (NilInterface, True, None)
     \<or> indexer s (namespace s @ ''/'' @ name) = (OtherType, True, None) \<Longrightarrow>
   Get s name = TypeAssertionPanic"
  by (auto simp: Get_def)

lemma Get_nil_nil:
  "Get s name = Return None None \<longleftrightarrow>
   indexer s (namespace s @ ''/'' @ name) = (QuotaPtr None, True, None)"
  by (auto simp: Get_def split: prod.splits iface.splits if_splits)

text \<open>
  C10, as the code has it. For every namespace and name, \<open>Get\<close> of the namespace lister
  returns the lookup error of the indexer with a nil object; or a NotFound error with a
  nil object when the indexer reports nothing under the key \<open>namespace/name\<close>; or, when
  the indexer reports a pointer of the quota type, that pointer with a nil error. It
  returns a nil object together with a nil error exactly when the reported pointer is
  nil, and the type assertion panics when the reported value is the nil interface or of
  another type. For an indexer that reports under the key, as existing, non-nil quota
  pointers only, \<open>Get\<close> has exactly one of the three outcomes of the claim and never
  returns a nil object together with a nil error.
\<close>

theorem Get_three_outcomes:
  "(\<forall>obj ex e. indexer s (namespace s @ ''/'' @ name) = (obj, ex, Some e) \<longrightarrow>
       Get s name = Return None (Some e))
   \<and> (\<forall>obj. indexer s (namespace s @ ''/'' @ name) = (obj, False, None) \<longrightarrow>
       Get s name = Return None (Some (NotFound ''appliedclusterresourcequota'' name)))
   \<and> (\<forall>p. indexer s (namespace s @ ''/'' @ name) = (QuotaPtr p, True, None) \<longrightarrow>
       Get s name = Return p None)
   \<and> (indexer s (namespace s @ ''/'' @ name) = (NilInterface, True, None)
        \<or> indexer s (namespace s @ ''/'' @ name) = (OtherType, True, None) \<longrightarrow>
       Get s name = TypeAssertionPanic)
   \<and> (Get s name = Return None None \<longleftrightarrow>
       indexer s (namespace s @ ''/'' @ name) = (QuotaPtr None, True, None))
   \<and> ((\<forall>obj. indexer s (namespace s @ ''/'' @ name) = (obj, True, None) \<longrightarrow>
          (\<exists>q. obj = QuotaPtr (Some q))) \<longrightarrow>
       ((\<exists>obj ex e. indexer s (namespace s @ ''/'' @ name) = (obj, ex, Some e)
             \<and> Get s name = Return None (Some e))
        \<or> (\<exists>obj. indexer s (namespace s @ ''/'' @ name) = (obj, False, None)
             \<and> Get s name = Return None (Some (NotFound ''appliedclusterresourcequota'' name)))
        \<or> (\<exists>q. indexer s (namespace s @ ''/'' @ name) = (QuotaPtr (Some q), True, None)
             \<and> Get s name = Return (Some q) None))
       \<and> Get s name \<noteq> Return None None)"
proof -
  have contract: "((\<exists>obj ex e. indexer s (namespace s @ ''/'' @ name) = (obj, ex, Some e)
             \<and> Get s name = Return None (Some e))
        \<or> (\<exists>obj. indexer s (namespace s @ ''/'' @ name) = (obj, False, None)
             \<and> Get s name = Return None (Some (NotFound ''appliedclusterresourcequota'' name)))
        \<or> (\<exists>q. indexer s (namespace s @ ''/'' @ name) = (QuotaPtr (Some q), True, None)
             \<and> Get s name = Return (Some q) None))
       \<and> Get s name \<noteq> Return None None"
    if c: "\<forall>obj. indexer s (namespace s @ ''/'' @ name) = (obj, True, None) \<longrightarrow>
          (\<exists>q. obj = QuotaPtr (Some q))"
  proof -
    obtain obj ex err where r: "indexer s (namespace s @ ''/'' @ name) = (obj, ex, err)"
      by (cases "indexer s (namespace s @ ''/'' @ name)") auto
    show ?thesis
    proof (cases err)
      case (Some e)
      with r show ?thesis by (simp add: Get_error)
    next
      case None
      show ?thesis
      proof (cases ex)
        case False
        with r None show ?thesis by (simp add: Get_missing)
      next
        case True
        from c r None True obtain q where "obj = QuotaPtr (Some q)" by auto
        with r None True show ?thesis by (simp add: Get_stored)
      qed
    qed
  qed
  show ?thesis
    using Get_error [of s name] Get_missing [of s name] Get_stored [of s name]
      Get_panic [of s name] Get_nil_nil [of s name] contract
    by blast
qed

theorem Get_three_outcomes_witness:
  "Get example_lister ''for-team'' = Return (Some 7) None
   \<and> Get example_lister ''other'' = Return None (Some (NotFound ''appliedclusterresourcequota'' ''other''))
   \<and> Get example_lister ''for-team'' \<noteq> Return None None"
  using Get_three_outcomes [of example_lister "''for-team''"] Get_three_outcomes [of example_lister "''other''"]
  by (simp add: example_lister_def)

text \<open>
  An indexer that reports a nil pointer of the quota type as existing: \<open>Get\<close> returns
  the nil object together with the nil error.
\<close>

theorem Get_nil_object_nil_error_counterexample:
  "Get typed_nil_lister ''for-team'' = Return None None"
  by (simp add: Get_def typed_nil_lister_def typed_nil_indexer_def)

section \<open>Properties of label matching\<close>

lemma Expect_match_iff: "Expect_match l t \<longleftrightarrow> (\<forall>(k, v) \<in> set l. index t k = v)"
  by (induction l t rule: Expect_match.induct) auto

lemma index_Some: "v \<noteq> [] \<Longrightarrow> index t k = v \<longleftrightarrow> t k = Some v"
  by (auto simp: index_def split: option.splits)

lemma matched_loop_sound:
  "k |\<in>| matched_loop labels ls acc \<Longrightarrow>
     k |\<in>| acc \<or> (\<exists>p \<in> set ls. GetName p = k \<and> map_of labels k = Some (GetValue p))"
  by (induction labels ls acc rule: matched_loop.induct) (auto split: option.splits if_splits)

lemma matched_loop_complete:
  "\<forall>p \<in> set ls. \<forall>e. map_of labels (GetName p) = Some e \<longrightarrow> e = GetValue p \<Longrightarrow>
   fset (matched_loop labels ls acc) = fset acc \<union> {GetName p | p. p \<in> set ls \<and> GetName p \<in> dom (map_of labels)}"
  by (induction labels ls acc rule: matched_loop.induct) (auto split: option.splits if_splits)

lemma matched_loop_subset:
  "fset acc \<subseteq> dom (map_of labels) \<Longrightarrow> fset (matched_loop labels ls acc) \<subseteq> dom (map_of labels)"
  by (induction labels ls acc rule: matched_loop.induct) (auto split: option.splits if_splits)

lemma matched_loop_card:
  assumes dl: "distinct (map fst labels)" and dn: "distinct (map GetName ls)"
  shows "fcard (matched_loop labels ls {||}) = length labels \<longleftrightarrow>
         (\<forall>(k, v) \<in> set labels. \<exists>p \<in> set ls. GetName p = k \<and> GetValue p = v)"
proof
  let ?R = "fset (matched_loop labels ls {||})"
  let ?D = "dom (map_of labels)"
  have cardD: "card ?D = length labels"
    using dl by (simp add: dom_map_of_conv_image_fst distinct_card flip: set_map)
  have sub: "?R \<subseteq> ?D"
    using matched_loop_subset [of "{||}" labels ls] by simp
  {
    assume "fcard (matched_loop labels ls {||}) = length labels"
    then have "card ?R = card ?D"
      using cardD by (simp add: fcard.rep_eq)
    with sub have eq: "?R = ?D"
      by (simp add: card_subset_eq finite_dom_map_of)
    show "\<forall>(k, v) \<in> set labels. \<exists>p \<in> set ls. GetName p = k \<and> GetValue p = v"
    proof (clarify)
      fix k v assume kv: "(k, v) \<in> set labels"
      with dl have mk: "map_of labels k = Some v" by simp
      then have "k \<in> ?R" using eq by auto
      then have "k |\<in>| matched_loop labels ls {||}" by simp
      from matched_loop_sound [OF this] obtain p
        where "p \<in> set ls" "GetName p = k" "map_of labels k = Some (GetValue p)" by auto
      with mk show "\<exists>p \<in> set ls. GetName p = k \<and> GetValue p = v" by auto
    qed
  }
  {
    assume rhs: "\<forall>(k, v) \<in> set labels. \<exists>p \<in> set ls. GetName p = k \<and> GetValue p = v"
    have inj: "inj_on GetName (set ls)"
      using dn by (simp add: distinct_map)
    have agree: "\<forall>p \<in> set ls. \<forall>e. map_of labels (GetName p) = Some e \<longrightarrow> e = GetValue p"
    proof (intro ballI allI impI)
      fix p e assume p: "p \<in> set ls" and "map_of labels (GetName p) = Some e"
      then have "(GetName p, e) \<in> set labels" by (simp add: map_of_SomeD)
      with rhs obtain p' where p': "p' \<in> set ls" "GetName p' = GetName p" "GetValue p' = e" by auto
      with inj p have "p' = p" by (auto dest: inj_onD)
      with p' show "e = GetValue p" by simp
    qed
    have "?D \<subseteq> ?R"
    proof
      fix k assume "k \<in> ?D"
      then obtain v where "map_of labels k = Some v" by auto
      then have "(k, v) \<in> set labels" by (simp add: map_of_SomeD)
      with rhs obtain p where "p \<in> set ls" "GetName p = k" by auto
      with \<open>k \<in> ?D\<close> show "k \<in> ?R"
        unfolding matched_loop_complete [OF agree, of "{||}"] by auto
    qed
    with sub have "?R = ?D" by auto
    then show "fcard (matched_loop labels ls {||}) = length labels"
      using cardD by (simp add: fcard.rep_eq)
  }
qed

lemma findMetricsWithLabels_loop_filter:
  "distinct (map fst labels) \<Longrightarrow> \<forall>m \<in> set ms. distinct (map GetName (Label m)) \<Longrightarrow>
   findMetricsWithLabels_loop ms labels =
     filter (\<lambda>m. \<forall>(k, v) \<in> set labels. \<exists>p \<in> set (Label m). GetName p = k \<and> GetValue p = v) ms"
  by (induction ms) (simp_all add: matched_loop_card)

lemma Expect_match_cong:
  "\<forall>k \<in> fst ` set l. t k = t' k \<Longrightarrow> Expect_match l t = Expect_match l t'"
proof -
  assume "\<forall>k \<in> fst ` set l. t k = t' k"
  then have "\<And>k v. (k, v) \<in> set l \<Longrightarrow> index t k = index t' k"
    by (force simp: index_def)
  then show ?thesis
    unfolding Expect_match_iff by auto
qed

text \<open>
  C2, as the code has it. \<^verbatim>\<open>Expect\<close> matches a target exactly when, for every key of the
  selector, the value of the target's label, read as the empty string when the target
  does not carry the label, is the selector's value; so for a selector without empty
  values it matches exactly when the target carries every key of the selector with an
  identical value. \<^verbatim>\<open>findMetricsWithLabels\<close> keeps, of metrics whose label names are
  distinct, exactly those that carry every key of the selector with an identical value.
  Labels that the selector does not name do not change the outcome, and the empty selector
  matches every series.
\<close>

theorem label_selector_matching:
  "(Expect_match l t \<longleftrightarrow> (\<forall>(k, v) \<in> set l. index t k = v))
   \<and> ((\<forall>(k, v) \<in> set l. v \<noteq> []) \<longrightarrow> (Expect_match l t \<longleftrightarrow> (\<forall>(k, v) \<in> set l. t k = Some v)))
   \<and> ((\<forall>k \<in> fst ` set l. t k = t' k) \<longrightarrow> Expect_match l t = Expect_match l t')
   \<and> Expect_match [] t
   \<and> (distinct (map fst labels) \<and> (\<forall>m \<in> set ms. distinct (map GetName (Label m))) \<longrightarrow>
        findMetricsWithLabels (Some ms) labels =
          filter (\<lambda>m. \<forall>(k, v) \<in> set labels. \<exists>p \<in> set (Label m). GetName p = k \<and> GetValue p = v) ms)
   \<and> findMetricsWithLabels (Some ms) [] = ms"
proof -
  have a: "Expect_match l t \<longleftrightarrow> (\<forall>(k, v) \<in> set l. index t k = v)"
    by (rule Expect_match_iff)
  have b: "(\<forall>(k, v) \<in> set l. v \<noteq> []) \<longrightarrow> (Expect_match l t \<longleftrightarrow> (\<forall>(k, v) \<in> set l. t k = Some v))"
  proof
    assume ne: "\<forall>(k, v) \<in> set l. v \<noteq> []"
    have "\<And>k v. (k, v) \<in> set l \<Longrightarrow> (index t k = v \<longleftrightarrow> t k = Some v)"
    proof -
      fix k v assume "(k, v) \<in> set l"
      with ne have "v \<noteq> []" by auto
      then show "index t k = v \<longleftrightarrow> t k = Some v" by (rule index_Some)
    qed
    then show "Expect_match l t \<longleftrightarrow> (\<forall>(k, v) \<in> set l. t k = Some v)"
      unfolding a by fastforce
  qed
  have c: "(\<forall>k \<in> fst ` set l. t k = t' k) \<longrightarrow> Expect_match l t = Expect_match l t'"
    using Expect_match_cong by blast
  have d: "distinct (map fst labels) \<and> (\<forall>m \<in> set ms. distinct (map GetName (Label m))) \<longrightarrow>
        findMetricsWithLabels (Some ms) labels =
          filter (\<lambda>m. \<forall>(k, v) \<in> set labels. \<exists>p \<in> set (Label m). GetName p = k \<and> GetValue p = v) ms"
    by (simp add: findMetricsWithLabels_def findMetricsWithLabels_loop_filter)
  have "matched_loop [] ls acc = acc" for ls acc
    by (induction ls) simp_all
  then have e: "findMetricsWithLabels (Some ms) [] = ms"
    by (induction ms) (simp_all add: findMetricsWithLabels_def)
  from a b c d e show ?thesis by simp
qed

theorem label_selector_matching_witness:
  "Expect_match [(''job'', ''api'')] (map_of [(''job'', ''api''), (''namespace'', ''default'')])
   \<and> \<not> Expect_match [(''job'', ''api'')] (map_of [(''job'', ''kubelet'')])
   \<and> findMetricsWithLabels
        (Some [\<lparr>Label = [LabelPair (Some ''job'') (Some ''api''), LabelPair (Some ''code'') (Some ''200'')]\<rparr>,
               \<lparr>Label = [LabelPair (Some ''job'') (Some ''kubelet'')]\<rparr>])
        [(''job'', ''api'')] =
      [\<lparr>Label = [LabelPair (Some ''job'') (Some ''api''), LabelPair (Some ''code'') (Some ''200'')]\<rparr>]"
  using label_selector_matching [of "[(''job'', ''api'')]" "map_of [(''job'', ''api''), (''namespace'', ''default'')]"
      "map_of [(''job'', ''api'')]" "[(''job'', ''api'')]"
      "[\<lparr>Label = [LabelPair (Some ''job'') (Some ''api''), LabelPair (Some ''code'') (Some ''200'')]\<rparr>,
               \<lparr>Label = [LabelPair (Some ''job'') (Some ''kubelet'')]\<rparr>]"]
    label_selector_matching [of "[(''job'', ''api'')]" "map_of [(''job'', ''kubelet'')]"
      "map_of [(''job'', ''kubelet'')]" "[]" "[]"]
  by (simp add: index_def)

text \<open>
  The selector \<open>{job: ""}\<close> matches, in \<^verbatim>\<open>Expect\<close>, a target without labels, which does not
  carry the key \<open>job\<close>.
\<close>

theorem label_selector_counterexample:
  "Expect_match [(''job'', '''')] (map_of []) \<and> map_of ([] :: (string \<times> string) list) ''job'' \<noteq> Some ''''"
  by (simp add: index_def)

text \<open>
  Where a metric has two labels of one name, \<^verbatim>\<open>findMetricsWithLabels\<close> follows their order:
  the loop ends at the first pair that differs, so this metric, which carries the pair
  \<open>job = api\<close>, is not kept.
\<close>

lemma findMetricsWithLabels_duplicate_names:
  "findMetricsWithLabels
     (Some [\<lparr>Label = [LabelPair (Some ''job'') (Some ''kubelet''), LabelPair (Some ''job'') (Some ''api'')]\<rparr>])
     [(''job'', ''api'')] = []"
  by (simp add: findMetricsWithLabels_def fcard_fempty)

section \<open>Properties of the alerts test\<close>

lemma example_RunQuery:
  "RunQuery (example_helper d w f p) (watchdogQuery d) = w"
  "RunQuery (example_helper d w f p) (firingAlertQuery d) = f"
  "RunQuery (example_helper d w f p) pendingAlertQuery = p"
  by (simp_all add: example_helper_def watchdogQuery_def firingAlertQuery_def pendingAlertQuery_def)

lemma example_Matches: "Matches (example_helper d w f p) = MetricConditions_Matches"
  by (simp add: example_helper_def)

lemma transitions_Cons2:
  "transitions (a # b # ws) = (if a \<noteq> b then 1 else 0) + transitions (b # ws)"
  by (simp add: transitions_def upt_conv_Cons map_Suc_upt [symmetric] filter_map o_def del: upt_Suc)

lemma changes_transitions: "changes (map indicator window) = transitions window"
proof (induction window rule: induct_list012)
  case 1
  show ?case by (simp add: transitions_def)
next
  case (2 a)
  show ?case by (simp add: transitions_def)
next
  case (3 a b ws)
  have "indicator a \<noteq> indicator b \<longleftrightarrow> a \<noteq> b"
    by (simp add: indicator_def)
  with 3 show ?case
    by (simp add: transitions_Cons2)
qed

lemma strip_prefix_append: "strip_prefix p (p @ s) = Some s"
  by (induction p) simp_all

lemma watchdogQuery_shape:
  "watchdogQuery testDuration = (''changes('' @ indicatorExpr @ ''['') @ testDuration @ '':1s]) > 1''"
  by (simp add: watchdogQuery_def indicatorExpr_def watchdogSelector_def)

lemma read_threshold_watchdogQuery: "read_threshold (watchdogQuery testDuration) = Some 1"
proof -
  have r: "rev (testDuration @ '':1s]) > 1'') = CHR ''1'' # rev '':1s]) > '' @ rev testDuration"
    by simp
  have t: "takeWhile is_digit (CHR ''1'' # rev '':1s]) > '' @ rev testDuration) = ''1''"
    by (simp add: is_digit_def)
  have d: "dropWhile is_digit (CHR ''1'' # rev '':1s]) > '' @ rev testDuration)
             = rev '':1s]) > '' @ rev testDuration"
    by (simp add: is_digit_def)
  have n: "decimal (rev ''1'') = 1"
    by (simp add: decimal_def)
  show ?thesis
    unfolding read_threshold_def watchdogQuery_shape strip_prefix_append option.case r t d Let_def n
    by simp
qed

lemma promql_answer_watchdogQuery:
  "promql_answer window (watchdogQuery testDuration) =
     Inr (if window = [] then []
          else map (\<lambda>c. \<lparr>Metric = Map.empty, Value = FormatNat c\<rparr>)
                 (filter (\<lambda>c. c > 1) [changes (map indicator window)]))"
  by (simp add: promql_answer_def read_threshold_watchdogQuery)

lemma promql_answer_empty:
  "promql_answer window (watchdogQuery testDuration) = Inr result \<Longrightarrow>
   result = [] \<longleftrightarrow> transitions window \<le> 1"
  by (auto simp: promql_answer_watchdogQuery changes_transitions [symmetric] split: if_splits)

text \<open>
  C1. The backend answers the Watchdog query of the test, as it reads it, for a window of
  indicator samples: with no transition or exactly one over the window the check records
  no violation; with two or more it records the one "missing intervals" violation in the
  unexpected set.
\<close>

theorem watchdog_continuity:
  assumes "RunQuery h (watchdogQuery testDuration) = promql_answer window (watchdogQuery testDuration)"
  shows "(transitions window \<le> 1 \<longrightarrow> watchdog_check h testDuration s = Inr s)
       \<and> (2 \<le> transitions window \<longrightarrow>
            watchdog_check h testDuration s =
              Inr (s\<lparr>unexpectedViolations := finsert watchdogViolation (unexpectedViolations s)\<rparr>))
       \<and> (2 \<le> transitions window \<longrightarrow>
            watchdog_check h testDuration NewViolations =
              Inr (NewViolations\<lparr>unexpectedViolations := {|watchdogViolation|}\<rparr>))"
proof -
  obtain result where res: "promql_answer window (watchdogQuery testDuration) = Inr result"
    by (simp add: promql_answer_watchdogQuery)
  have "transitions window \<le> 1 \<Longrightarrow> result = []"
    using promql_answer_empty [OF res] by simp
  moreover have "2 \<le> transitions window \<Longrightarrow> length result > 0"
    using promql_answer_empty [OF res] by auto
  ultimately show ?thesis
    using assms res by (auto simp: watchdog_check_def watchdog_step_def NewViolations_def)
qed

theorem watchdog_continuity_witness:
  "watchdog_check (example_helper ''3s'' (promql_answer [True, True, True] (watchdogQuery ''3s'')) (Inr []) (Inr []))
     ''3s'' NewViolations = Inr NewViolations
   \<and> watchdog_check (example_helper ''3s'' (promql_answer [False, True, True] (watchdogQuery ''3s'')) (Inr []) (Inr []))
     ''3s'' NewViolations = Inr NewViolations
   \<and> watchdog_check (example_helper ''3s'' (promql_answer [True, False, True] (watchdogQuery ''3s'')) (Inr []) (Inr []))
     ''3s'' NewViolations = Inr (NewViolations\<lparr>unexpectedViolations := {|watchdogViolation|}\<rparr>)"
proof -
  have t0: "transitions [True, True, True] \<le> 1" by code_simp
  have t1: "transitions [False, True, True] \<le> 1" by code_simp
  have t2: "2 \<le> transitions [True, False, True]" by code_simp
  show ?thesis
    using t0 t1 t2
      watchdog_continuity [where h = "example_helper ''3s'' (promql_answer [True, True, True] (watchdogQuery ''3s'')) (Inr []) (Inr [])"
        and testDuration = "''3s''" and window = "[True, True, True]" and s = NewViolations]
      watchdog_continuity [where h = "example_helper ''3s'' (promql_answer [False, True, True] (watchdogQuery ''3s'')) (Inr []) (Inr [])"
        and testDuration = "''3s''" and window = "[False, True, True]" and s = NewViolations]
      watchdog_continuity [where h = "example_helper ''3s'' (promql_answer [True, False, True] (watchdogQuery ''3s'')) (Inr []) (Inr [])"
        and testDuration = "''3s''" and window = "[True, False, True]" and s = NewViolations]
    by (simp add: example_RunQuery NewViolations_def)
qed

text \<open>
  The threshold is the one of the text: the backend reads 0 in a query that ends in
  \<^verbatim>\<open>> 0\<close>, and nothing in a text that is not such a query.
\<close>

lemma read_threshold_other_texts:
  "read_threshold (''changes('' @ indicatorExpr @ ''[3s:1s]) > 0'') = Some 0
   \<and> read_threshold [] = None
   \<and> read_threshold pendingAlertQuery = None"
  by (simp add: read_threshold_def strip_prefix_append is_digit_def decimal_def
      indicatorExpr_def watchdogSelector_def pendingAlertQuery_def)

text \<open>
  For a window with one transition the query of the test gets no series, and the same
  query with the threshold 0 gets one.
\<close>

lemma promql_answer_follows_threshold:
  "promql_answer [True, False] (watchdogQuery ''3s'') = Inr []
   \<and> promql_answer [True, False] (''changes('' @ indicatorExpr @ ''[3s:1s]) > 0'')
       = Inr [\<lparr>Metric = Map.empty, Value = ''1''\<rparr>]"
proof -
  have "read_threshold (''changes('' @ indicatorExpr @ ''[3s:1s]) > 0'') = Some 0"
    using read_threshold_other_texts by blast
  moreover have "char_of (49 :: nat) = CHR ''1''"
    by code_simp
  ultimately show ?thesis
    by (simp add: promql_answer_def read_threshold_watchdogQuery indicator_def FormatNat.simps)
qed

lemma Matches_find: "MetricConditions_Matches conds x = find (\<lambda>c. condition_matches c x) conds"
  by (induction conds) auto

lemma Matches_Some:
  "MetricConditions_Matches conds x = Some c \<longleftrightarrow>
     (\<exists>i<length conds. condition_matches (conds ! i) x \<and> c = conds ! i
        \<and> (\<forall>j<i. \<not> condition_matches (conds ! j) x))"
  by (simp add: Matches_find find_Some_iff)

lemma Matches_None:
  "MetricConditions_Matches conds x = None \<longleftrightarrow> (\<forall>c \<in> set conds. \<not> condition_matches c x)"
  by (auto simp: Matches_find find_None_iff)

lemma firing_step_Some:
  "Matches h withBugs series = Some cause \<Longrightarrow>
   firing_step h withBugs s series =
     s\<lparr>knownViolations :=
         finsert (firing_violation h series @ '' (open bug: '' @ Text cause @ '')'') (knownViolations s)\<rparr>"
  by (simp add: firing_step_def)

lemma firing_step_None:
  "Matches h withBugs series = None \<Longrightarrow>
   firing_step h withBugs s series =
     s\<lparr>unexpectedViolations := finsert (firing_violation h series) (unexpectedViolations s)\<rparr>"
  by (simp add: firing_step_def)

lemma pending_step_allowed:
  "Matches h allowed series = Some cause \<Longrightarrow>
   pending_step h allowed withBugs s series =
     s\<lparr>debug := finsert (pending_violation h series @ '' (allowed: '' @ Text cause @ '')'') (debug s)\<rparr>"
  by (simp add: pending_step_def)

lemma pending_step_Some:
  "Matches h allowed series = None \<Longrightarrow> Matches h withBugs series = Some cause \<Longrightarrow>
   pending_step h allowed withBugs s series =
     s\<lparr>knownViolations :=
         finsert (pending_violation h series @ '' (open bug: '' @ Text cause @ '')'') (knownViolations s)\<rparr>"
  by (simp add: pending_step_def)

lemma pending_step_None:
  "Matches h allowed series = None \<Longrightarrow> Matches h withBugs series = None \<Longrightarrow>
   pending_step h allowed withBugs s series =
     s\<lparr>unexpectedViolationsAsFlakes :=
         finsert (pending_violation h series) (unexpectedViolationsAsFlakes s)\<rparr>"
  by (simp add: pending_step_def)

text \<open>
  C3. With the matcher of the helper package, the first condition in list order whose
  selector matches the series decides the classification, and the text of that condition
  is attached to the recorded description; a series that no condition matches is recorded
  without a text. For a pending series the allow-list is consulted before the list of
  open bugs.
\<close>

theorem first_match_wins:
  assumes "Matches h = MetricConditions_Matches"
  shows "((\<exists>i<length withBugs. condition_matches (withBugs ! i) series
            \<and> (\<forall>j<i. \<not> condition_matches (withBugs ! j) series)
            \<and> firing_step h withBugs s series =
                s\<lparr>knownViolations :=
                    finsert (firing_violation h series @ '' (open bug: '' @ Text (withBugs ! i) @ '')'')
                      (knownViolations s)\<rparr>)
         \<or> ((\<forall>c \<in> set withBugs. \<not> condition_matches c series)
            \<and> firing_step h withBugs s series =
                s\<lparr>unexpectedViolations := finsert (firing_violation h series) (unexpectedViolations s)\<rparr>))
       \<and> ((\<exists>i<length allowed. condition_matches (allowed ! i) series
            \<and> (\<forall>j<i. \<not> condition_matches (allowed ! j) series)
            \<and> pending_step h allowed withBugs s series =
                s\<lparr>debug :=
                    finsert (pending_violation h series @ '' (allowed: '' @ Text (allowed ! i) @ '')'')
                      (debug s)\<rparr>)
         \<or> ((\<forall>c \<in> set allowed. \<not> condition_matches c series)
            \<and> (\<exists>i<length withBugs. condition_matches (withBugs ! i) series
                 \<and> (\<forall>j<i. \<not> condition_matches (withBugs ! j) series)
                 \<and> pending_step h allowed withBugs s series =
                     s\<lparr>knownViolations :=
                         finsert (pending_violation h series @ '' (open bug: '' @ Text (withBugs ! i) @ '')'')
                           (knownViolations s)\<rparr>))
         \<or> ((\<forall>c \<in> set allowed. \<not> condition_matches c series)
            \<and> (\<forall>c \<in> set withBugs. \<not> condition_matches c series)
            \<and> pending_step h allowed withBugs s series =
                s\<lparr>unexpectedViolationsAsFlakes :=
                    finsert (pending_violation h series) (unexpectedViolationsAsFlakes s)\<rparr>))"
proof -
  have firing: "(\<exists>i<length withBugs. condition_matches (withBugs ! i) series
            \<and> (\<forall>j<i. \<not> condition_matches (withBugs ! j) series)
            \<and> firing_step h withBugs s series =
                s\<lparr>knownViolations :=
                    finsert (firing_violation h series @ '' (open bug: '' @ Text (withBugs ! i) @ '')'')
                      (knownViolations s)\<rparr>)
         \<or> ((\<forall>c \<in> set withBugs. \<not> condition_matches c series)
            \<and> firing_step h withBugs s series =
                s\<lparr>unexpectedViolations := finsert (firing_violation h series) (unexpectedViolations s)\<rparr>)"
  proof (cases "MetricConditions_Matches withBugs series")
    case None
    then have "\<forall>c \<in> set withBugs. \<not> condition_matches c series"
      by (simp only: Matches_None)
    moreover from None assms have "Matches h withBugs series = None" by simp
    ultimately show ?thesis
      using firing_step_None [of h withBugs series s] by blast
  next
    case (Some c)
    then obtain i where i: "i < length withBugs" "condition_matches (withBugs ! i) series" "c = withBugs ! i"
      "\<forall>j<i. \<not> condition_matches (withBugs ! j) series"
      unfolding Matches_Some by blast
    from Some assms have "Matches h withBugs series = Some c" by simp
    with i show ?thesis
      using firing_step_Some [of h withBugs series c s] by blast
  qed
  have pending: "(\<exists>i<length allowed. condition_matches (allowed ! i) series
            \<and> (\<forall>j<i. \<not> condition_matches (allowed ! j) series)
            \<and> pending_step h allowed withBugs s series =
                s\<lparr>debug :=
                    finsert (pending_violation h series @ '' (allowed: '' @ Text (allowed ! i) @ '')'')
                      (debug s)\<rparr>)
         \<or> ((\<forall>c \<in> set allowed. \<not> condition_matches c series)
            \<and> (\<exists>i<length withBugs. condition_matches (withBugs ! i) series
                 \<and> (\<forall>j<i. \<not> condition_matches (withBugs ! j) series)
                 \<and> pending_step h allowed withBugs s series =
                     s\<lparr>knownViolations :=
                         finsert (pending_violation h series @ '' (open bug: '' @ Text (withBugs ! i) @ '')'')
                           (knownViolations s)\<rparr>))
         \<or> ((\<forall>c \<in> set allowed. \<not> condition_matches c series)
            \<and> (\<forall>c \<in> set withBugs. \<not> condition_matches c series)
            \<and> pending_step h allowed withBugs s series =
                s\<lparr>unexpectedViolationsAsFlakes :=
                    finsert (pending_violation h series) (unexpectedViolationsAsFlakes s)\<rparr>)"
  proof (cases "MetricConditions_Matches allowed series")
    case (Some c)
    then obtain i where i: "i < length allowed" "condition_matches (allowed ! i) series" "c = allowed ! i"
      "\<forall>j<i. \<not> condition_matches (allowed ! j) series"
      unfolding Matches_Some by blast
    from Some assms have "Matches h allowed series = Some c" by simp
    with i show ?thesis
      using pending_step_allowed [of h allowed series c withBugs s] by blast
  next
    case None
    then have na: "\<forall>c \<in> set allowed. \<not> condition_matches c series"
      by (simp only: Matches_None)
    from None assms have ma: "Matches h allowed series = None" by simp
    show ?thesis
    proof (cases "MetricConditions_Matches withBugs series")
      case None
      then have "\<forall>c \<in> set withBugs. \<not> condition_matches c series"
        by (simp only: Matches_None)
      moreover from None assms have "Matches h withBugs series = None" by simp
      ultimately show ?thesis
        using na pending_step_None [OF ma, of withBugs s] by blast
    next
      case (Some c)
      then obtain i where i: "i < length withBugs" "condition_matches (withBugs ! i) series" "c = withBugs ! i"
        "\<forall>j<i. \<not> condition_matches (withBugs ! j) series"
        unfolding Matches_Some by blast
      from Some assms have "Matches h withBugs series = Some c" by simp
      with i show ?thesis
        using na pending_step_Some [OF ma, of withBugs c s] by blast
    qed
  qed
  from firing pending show ?thesis by (rule conjI)
qed

theorem first_match_wins_witness:
  "Matches quiet_helper = MetricConditions_Matches
   \<and> firing_step quiet_helper (firingAlertsWithBugs @ [warning_condition]) earlier_violations wardle_firing
       = earlier_violations\<lparr>knownViolations :=
           {|''alert AggregatedAPIDown fired for 120 seconds with labels: {severity=warning} (open bug: https://bugzilla.redhat.com/show_bug.cgi?id=1933144)'',
             ''earlier''|}\<rparr>
   \<and> firing_step quiet_helper (warning_condition # firingAlertsWithBugs) earlier_violations wardle_firing
       = earlier_violations\<lparr>knownViolations :=
           {|''alert AggregatedAPIDown fired for 120 seconds with labels: {severity=warning} (open bug: warnings are tolerated)'',
             ''earlier''|}\<rparr>
   \<and> firing_step quiet_helper (allowedPendingAlerts @ [warning_condition]) earlier_violations wardle_firing
       = earlier_violations\<lparr>knownViolations :=
           {|''alert AggregatedAPIDown fired for 120 seconds with labels: {severity=warning} (open bug: warnings are tolerated)'',
             ''earlier''|}\<rparr>
   \<and> firing_step quiet_helper (firingAlertsWithBugs @ [warning_condition]) earlier_violations etcd_firing
       = earlier_violations\<lparr>unexpectedViolations :=
           {|''alert etcdMembersDown fired for 42 seconds with labels: {severity=critical}''|}\<rparr>
   \<and> pending_step quiet_helper (allowedPendingAlerts @ [warning_condition]) [warning_condition]
         earlier_violations cpu_pending
       = earlier_violations\<lparr>debug :=
           {|''alert HighOverallControlPlaneCPU pending for 1 seconds with labels: {severity=warning} (allowed: high CPU utilization during e2e runs is normal)''|}\<rparr>
   \<and> pending_step quiet_helper (warning_condition # allowedPendingAlerts) [warning_condition]
         earlier_violations cpu_pending
       = earlier_violations\<lparr>debug :=
           {|''alert HighOverallControlPlaneCPU pending for 1 seconds with labels: {severity=warning} (allowed: warnings are tolerated)''|}\<rparr>
   \<and> pending_step quiet_helper [] (allowedPendingAlerts @ [warning_condition])
         earlier_violations cpu_pending
       = earlier_violations\<lparr>knownViolations :=
           {|''alert HighOverallControlPlaneCPU pending for 1 seconds with labels: {severity=warning} (open bug: high CPU utilization during e2e runs is normal)'',
             ''earlier''|}\<rparr>
   \<and> pending_step quiet_helper [] (warning_condition # allowedPendingAlerts)
         earlier_violations cpu_pending
       = earlier_violations\<lparr>knownViolations :=
           {|''alert HighOverallControlPlaneCPU pending for 1 seconds with labels: {severity=warning} (open bug: warnings are tolerated)'',
             ''earlier''|}\<rparr>"
proof -
  have m: "Matches quiet_helper = MetricConditions_Matches"
    by (simp add: quiet_helper_def example_Matches)
  note defs = quiet_helper_def example_helper_def firing_step_def firing_violation_def
    pending_step_def pending_violation_def firingAlertsWithBugs_def allowedPendingAlerts_def
    warning_condition_def wardle_firing_def etcd_firing_def cpu_pending_def
    condition_matches_def index_def earlier_violations_def NewViolations_def
  show ?thesis
    using m
      first_match_wins [OF m, where withBugs = "firingAlertsWithBugs @ [warning_condition]"
        and series = wardle_firing and s = earlier_violations
        and allowed = "allowedPendingAlerts @ [warning_condition]"]
      first_match_wins [OF m, where withBugs = "warning_condition # firingAlertsWithBugs"
        and series = wardle_firing and s = earlier_violations
        and allowed = "warning_condition # allowedPendingAlerts"]
      first_match_wins [OF m, where withBugs = "[warning_condition]"
        and series = cpu_pending and s = earlier_violations
        and allowed = "allowedPendingAlerts @ [warning_condition]"]
      first_match_wins [OF m, where withBugs = "warning_condition # allowedPendingAlerts"
        and series = cpu_pending and s = earlier_violations and allowed = "[]"]
    by (simp add: defs)
qed

subsection \<open>The verdict\<close>

lemma fcard_pos: "0 < fcard A \<longleftrightarrow> A \<noteq> {||}"
  by (simp add: zero_less_iff_neq_zero)

lemma report_hard_fail: "list_ex is_Failf (report s) \<longleftrightarrow> unexpectedViolations s \<noteq> {||}"
  by (simp add: report_def fcard_pos Let_def)

lemma report_no_unexpected:
  "unexpectedViolations s = {||} \<Longrightarrow>
   report s =
     (if debug s \<noteq> {||}
      then [Logf (''Alerts were detected during test run which are allowed:\<newline>\<newline>''
                  @ Join (sorted_list_of_fset (debug s)) ''\<newline>'')]
      else [])
     @ (if knownViolations s |\<union>| unexpectedViolationsAsFlakes s \<noteq> {||}
        then [Flakef (''Unexpected alert behavior during test:\<newline>\<newline>''
                      @ Join (sorted_list_of_fset (knownViolations s |\<union>| unexpectedViolationsAsFlakes s))
                          ''\<newline>'')]
        else [])
     @ [Logf ''No alerts fired during test run'']"
  by (simp add: report_def fcard_pos Let_def)

lemma alertsTest_success:
  "RunQuery h (watchdogQuery d) = Inr r1 \<Longrightarrow> RunQuery h (firingAlertQuery d) = Inr r2 \<Longrightarrow>
   RunQuery h pendingAlertQuery = Inr r3 \<Longrightarrow>
   alertsTest h d =
     (foldl (pending_step h allowedPendingAlerts pendingAlertsWithBugs)
        (foldl (firing_step h firingAlertsWithBugs) (watchdog_step NewViolations r1) r2) r3,
      report (foldl (pending_step h allowedPendingAlerts pendingAlertsWithBugs)
        (foldl (firing_step h firingAlertsWithBugs) (watchdog_step NewViolations r1) r2) r3))"
  by (simp add: alertsTest_def watchdog_check_def firing_check_def pending_check_def)

text \<open>
  C5. The verdict raises the hard failure exactly when the set of unexpected violations is
  not empty, for any accumulators, and a test whose three queries were answered fails
  exactly when the set is not empty at its end. With no unexpected violation, known or flaky violations leave the test
  without a failure: apart from log lines it reports the one flake, and runs to its last
  line.
\<close>

theorem verdict_hard_fail_iff_unexpected:
  "(list_ex is_Failf (report s) \<longleftrightarrow> unexpectedViolations s \<noteq> {||})
   \<and> (RunQuery h (watchdogQuery d) = Inr r1 \<and> RunQuery h (firingAlertQuery d) = Inr r2
        \<and> RunQuery h pendingAlertQuery = Inr r3 \<longrightarrow>
      (list_ex is_Failf (snd (alertsTest h d)) \<longleftrightarrow> unexpectedViolations (fst (alertsTest h d)) \<noteq> {||}))
   \<and> (unexpectedViolations s = {||}
        \<and> (knownViolations s \<noteq> {||} \<or> unexpectedViolationsAsFlakes s \<noteq> {||}) \<longrightarrow>
      \<not> list_ex is_Failf (report s)
      \<and> filter (\<lambda>e. \<not> is_Logf e) (report s) =
          [Flakef (''Unexpected alert behavior during test:\<newline>\<newline>''
                   @ Join (sorted_list_of_fset (knownViolations s |\<union>| unexpectedViolationsAsFlakes s))
                       ''\<newline>'')]
      \<and> last (report s) = Logf ''No alerts fired during test run'')
   \<and> (unexpectedViolations s = {||} \<and> knownViolations s = {||}
        \<and> unexpectedViolationsAsFlakes s = {||} \<longrightarrow>
      filter (\<lambda>e. \<not> is_Logf e) (report s) = [])"
proof -
  have a: "list_ex is_Failf (report s) \<longleftrightarrow> unexpectedViolations s \<noteq> {||}"
    by (rule report_hard_fail)
  have r: "RunQuery h (watchdogQuery d) = Inr r1 \<and> RunQuery h (firingAlertQuery d) = Inr r2
        \<and> RunQuery h pendingAlertQuery = Inr r3 \<longrightarrow>
      (list_ex is_Failf (snd (alertsTest h d)) \<longleftrightarrow> unexpectedViolations (fst (alertsTest h d)) \<noteq> {||})"
    by (simp add: alertsTest_success report_hard_fail)
  have b: "unexpectedViolations s = {||}
        \<and> (knownViolations s \<noteq> {||} \<or> unexpectedViolationsAsFlakes s \<noteq> {||}) \<longrightarrow>
      \<not> list_ex is_Failf (report s)
      \<and> filter (\<lambda>e. \<not> is_Logf e) (report s) =
          [Flakef (''Unexpected alert behavior during test:\<newline>\<newline>''
                   @ Join (sorted_list_of_fset (knownViolations s |\<union>| unexpectedViolationsAsFlakes s))
                       ''\<newline>'')]
      \<and> last (report s) = Logf ''No alerts fired during test run''"
    by (auto simp: report_no_unexpected report_hard_fail)
  have c: "unexpectedViolations s = {||} \<and> knownViolations s = {||}
        \<and> unexpectedViolationsAsFlakes s = {||} \<longrightarrow>
      filter (\<lambda>e. \<not> is_Logf e) (report s) = []"
    by (auto simp: report_no_unexpected)
  from a r b c show ?thesis by blast
qed

theorem verdict_hard_fail_iff_unexpected_witness:
  "list_ex is_Failf (report (NewViolations\<lparr>unexpectedViolations := {|''alert A fired''|}\<rparr>))
   \<and> \<not> list_ex is_Failf (report (NewViolations\<lparr>knownViolations := {|''alert B fired (open bug: 1)''|}\<rparr>))
   \<and> filter (\<lambda>e. \<not> is_Logf e) (report (NewViolations\<lparr>knownViolations := {|''alert B fired (open bug: 1)''|}\<rparr>))
       = [Flakef ''Unexpected alert behavior during test:\<newline>\<newline>alert B fired (open bug: 1)'']"
  using verdict_hard_fail_iff_unexpected [where s = "NewViolations\<lparr>unexpectedViolations := {|''alert A fired''|}\<rparr>"
      and h = "example_helper ''3s'' (Inr []) (Inr []) (Inr [])" and d = "''3s''"
      and ?r1.0 = "[]" and ?r2.0 = "[]" and ?r3.0 = "[]"]
    verdict_hard_fail_iff_unexpected [where s = "NewViolations\<lparr>knownViolations := {|''alert B fired (open bug: 1)''|}\<rparr>"
      and h = "example_helper ''3s'' (Inr []) (Inr []) (Inr [])" and d = "''3s''"
      and ?r1.0 = "[]" and ?r2.0 = "[]" and ?r3.0 = "[]"]
  by (simp add: NewViolations_def sorted_list_of_fset.rep_eq)

subsection \<open>Classification of the series\<close>



text \<open>
  C6. A pending series that a condition of the allow-list matches is recorded in the
  informational set only, with the text of the condition: the sets known, unexpected and
  flaky stay as they are, and the verdict fails, and reports beside its log lines, as it
  did without the series.
\<close>

theorem allowed_pending_informational:
  assumes "Matches h allowed series = Some cause"
  shows "pending_step h allowed withBugs s series =
           s\<lparr>debug := finsert (pending_violation h series @ '' (allowed: '' @ Text cause @ '')'') (debug s)\<rparr>
       \<and> knownViolations (pending_step h allowed withBugs s series) = knownViolations s
       \<and> unexpectedViolations (pending_step h allowed withBugs s series) = unexpectedViolations s
       \<and> unexpectedViolationsAsFlakes (pending_step h allowed withBugs s series) = unexpectedViolationsAsFlakes s
       \<and> (list_ex is_Failf (report (pending_step h allowed withBugs s series)) \<longleftrightarrow> list_ex is_Failf (report s))
       \<and> filter (\<lambda>e. \<not> is_Logf e) (report (pending_step h allowed withBugs s series))
           = filter (\<lambda>e. \<not> is_Logf e) (report s)"
proof -
  have "filter (\<lambda>e. \<not> is_Logf e) (report (s\<lparr>debug := D\<rparr>)) = filter (\<lambda>e. \<not> is_Logf e) (report s)" for D
    by (simp add: report_def Let_def fcard_pos)
  then show ?thesis
    by (simp add: pending_step_allowed [OF assms] report_hard_fail)
qed

theorem allowed_pending_informational_witness:
  "Matches (example_helper ''3s'' (Inr []) (Inr []) (Inr [cpu_pending])) allowedPendingAlerts cpu_pending
     = Some \<lparr>Selector = [(''alertname'', ''HighOverallControlPlaneCPU'')],
             Text = ''high CPU utilization during e2e runs is normal''\<rparr>
   \<and> pending_step (example_helper ''3s'' (Inr []) (Inr []) (Inr [cpu_pending])) allowedPendingAlerts
       pendingAlertsWithBugs NewViolations cpu_pending
     = NewViolations\<lparr>debug :=
         {|''alert HighOverallControlPlaneCPU pending for 1 seconds with labels: {severity=warning} (allowed: high CPU utilization during e2e runs is normal)''|}\<rparr>
   \<and> \<not> list_ex is_Failf (report (pending_step (example_helper ''3s'' (Inr []) (Inr []) (Inr [cpu_pending]))
         allowedPendingAlerts pendingAlertsWithBugs NewViolations cpu_pending))"
proof -
  have m: "Matches (example_helper ''3s'' (Inr []) (Inr []) (Inr [cpu_pending])) allowedPendingAlerts cpu_pending
     = Some \<lparr>Selector = [(''alertname'', ''HighOverallControlPlaneCPU'')],
             Text = ''high CPU utilization during e2e runs is normal''\<rparr>"
    by (simp add: example_helper_def allowedPendingAlerts_def cpu_pending_def condition_matches_def)
  have r: "\<not> list_ex is_Failf (report NewViolations)"
    by (simp add: report_def NewViolations_def fcard_fempty)
  have v: "pending_violation (example_helper ''3s'' (Inr []) (Inr []) (Inr [cpu_pending])) cpu_pending
      = ''alert HighOverallControlPlaneCPU pending for 1 seconds with labels: {severity=warning}''"
    by (simp add: pending_violation_def example_helper_def cpu_pending_def index_def)
  have d: "debug NewViolations = {||}"
    by (simp add: NewViolations_def)
  show ?thesis
    using m r allowed_pending_informational [OF m, of pendingAlertsWithBugs NewViolations]
    by (auto simp: v d)
qed

text \<open>
  The scenario of the spec: the pending query returns the one series of the alert
  \<open>HighOverallControlPlaneCPU\<close>; the test logs it and does not fail.
\<close>

lemma allowed_pending_end_to_end:
  "alertsTest (example_helper ''3s'' (Inr []) (Inr []) (Inr [cpu_pending])) ''3s'' =
     (NewViolations\<lparr>debug :=
         {|''alert HighOverallControlPlaneCPU pending for 1 seconds with labels: {severity=warning} (allowed: high CPU utilization during e2e runs is normal)''|}\<rparr>,
      [Logf ''Alerts were detected during test run which are allowed:\<newline>\<newline>alert HighOverallControlPlaneCPU pending for 1 seconds with labels: {severity=warning} (allowed: high CPU utilization during e2e runs is normal)'',
       Logf ''No alerts fired during test run''])"
  by (simp add: alertsTest_def watchdog_check_def firing_check_def pending_check_def example_RunQuery
      watchdog_step_def pending_step_def pending_violation_def example_helper_def cpu_pending_def
      allowedPendingAlerts_def condition_matches_def index_def NewViolations_def report_def
      sorted_list_of_fset.rep_eq fcard_fempty fcard_finsert_if
      watchdogQuery_def firingAlertQuery_def pendingAlertQuery_def)

subsection \<open>Failed queries\<close>

text \<open>
  C9. When a query returns an error the test ends there with the failed expectation, and
  the accumulators are as they were before the query: empty for the Watchdog query, as the
  Watchdog check left them for the firing query, as the loop over the firing series left
  them for the pending query.
\<close>

theorem transport_failure_aborts:
  "(RunQuery h (watchdogQuery d) = Inl e \<longrightarrow>
      alertsTest h d = (NewViolations, [ExpectFailed ''unable to check watchdog alert over test window'']))
   \<and> (RunQuery h (watchdogQuery d) = Inr r1 \<and> RunQuery h (firingAlertQuery d) = Inl e \<longrightarrow>
      alertsTest h d =
        (watchdog_step NewViolations r1, [ExpectFailed ''unable to check firing alerts during test'']))
   \<and> (RunQuery h (watchdogQuery d) = Inr r1 \<and> RunQuery h (firingAlertQuery d) = Inr r2
        \<and> RunQuery h pendingAlertQuery = Inl e \<longrightarrow>
      alertsTest h d =
        (foldl (firing_step h firingAlertsWithBugs) (watchdog_step NewViolations r1) r2,
         [ExpectFailed ''unable to retrieve pending alerts after upgrade'']))"
  by (simp add: alertsTest_def watchdog_check_def firing_check_def pending_check_def)

theorem transport_failure_aborts_witness:
  "alertsTest (example_helper ''3s'' (Inr []) (Inl (OtherError ''connection refused'')) (Inr [cpu_pending])) ''3s''
     = (NewViolations, [ExpectFailed ''unable to check firing alerts during test''])"
  using transport_failure_aborts [where h = "example_helper ''3s'' (Inr []) (Inl (OtherError ''connection refused'')) (Inr [cpu_pending])"
      and d = "''3s''" and ?r1.0 = "[]" and e = "OtherError ''connection refused''"]
  by (simp add: example_RunQuery watchdog_step_def)

subsection \<open>Collection of the violations\<close>

lemma firing_step_mono:
  "knownViolations s |\<subseteq>| knownViolations (firing_step h c s y)"
  "unexpectedViolations s |\<subseteq>| unexpectedViolations (firing_step h c s y)"
  by (cases "Matches h c y"; auto simp: firing_step_Some firing_step_None)+

lemma firing_loop_mono:
  "knownViolations s |\<subseteq>| knownViolations (foldl (firing_step h c) s ys)"
  "unexpectedViolations s |\<subseteq>| unexpectedViolations (foldl (firing_step h c) s ys)"
proof (induction ys arbitrary: s)
  case Nil
  { case 1 show ?case by simp }
  { case 2 show ?case by simp }
next
  case (Cons y ys)
  { case 1 show ?case
      using firing_step_mono(1) [of s h c y] Cons(1) [of "firing_step h c s y"] by auto }
  { case 2 show ?case
      using firing_step_mono(2) [of s h c y] Cons(2) [of "firing_step h c s y"] by auto }
qed

lemma pending_step_mono:
  "knownViolations s |\<subseteq>| knownViolations (pending_step h a c s y)"
  "unexpectedViolations s = unexpectedViolations (pending_step h a c s y)"
  "unexpectedViolationsAsFlakes s |\<subseteq>| unexpectedViolationsAsFlakes (pending_step h a c s y)"
  "debug s |\<subseteq>| debug (pending_step h a c s y)"
  by (cases "Matches h a y"; cases "Matches h c y";
      auto simp: pending_step_allowed pending_step_Some pending_step_None)+

lemma pending_loop_mono:
  "knownViolations s |\<subseteq>| knownViolations (foldl (pending_step h a c) s ys)"
  "unexpectedViolations s = unexpectedViolations (foldl (pending_step h a c) s ys)"
  "unexpectedViolationsAsFlakes s |\<subseteq>| unexpectedViolationsAsFlakes (foldl (pending_step h a c) s ys)"
  "debug s |\<subseteq>| debug (foldl (pending_step h a c) s ys)"
proof (induction ys arbitrary: s)
  case Nil
  { case 1 show ?case by simp }
  { case 2 show ?case by simp }
  { case 3 show ?case by simp }
  { case 4 show ?case by simp }
next
  case (Cons y ys)
  { case 1 show ?case
      using pending_step_mono(1) [of s h a c y] Cons(1) [of "pending_step h a c s y"] by auto }
  { case 2 show ?case
      using pending_step_mono(2) [of s h a c y] Cons(2) [of "pending_step h a c s y"] by auto }
  { case 3 show ?case
      using pending_step_mono(3) [of s h a c y] Cons(3) [of "pending_step h a c s y"] by auto }
  { case 4 show ?case
      using pending_step_mono(4) [of s h a c y] Cons(4) [of "pending_step h a c s y"] by auto }
qed

lemma firing_loop_records_Some:
  "x \<in> set xs \<Longrightarrow> Matches h c x = Some cause \<Longrightarrow>
   firing_violation h x @ '' (open bug: '' @ Text cause @ '')''
     |\<in>| knownViolations (foldl (firing_step h c) s xs)"
proof (induction xs arbitrary: s)
  case Nil
  then show ?case by simp
next
  case (Cons y ys)
  show ?case
  proof (cases "x = y")
    case False
    with Cons show ?thesis by simp
  next
    case True
    with Cons(3) have "firing_violation h x @ '' (open bug: '' @ Text cause @ '')''
        |\<in>| knownViolations (firing_step h c s y)"
      by (simp add: firing_step_Some)
    then show ?thesis
      using firing_loop_mono(1) [of "firing_step h c s y" h c ys] by auto
  qed
qed

lemma firing_loop_records_None:
  "x \<in> set xs \<Longrightarrow> Matches h c x = None \<Longrightarrow>
   firing_violation h x |\<in>| unexpectedViolations (foldl (firing_step h c) s xs)"
proof (induction xs arbitrary: s)
  case Nil
  then show ?case by simp
next
  case (Cons y ys)
  show ?case
  proof (cases "x = y")
    case False
    with Cons show ?thesis by simp
  next
    case True
    with Cons(3) have "firing_violation h x |\<in>| unexpectedViolations (firing_step h c s y)"
      by (simp add: firing_step_None)
    then show ?thesis
      using firing_loop_mono(2) [of "firing_step h c s y" h c ys] by auto
  qed
qed

lemma pending_loop_records_allowed:
  "x \<in> set xs \<Longrightarrow> Matches h a x = Some cause \<Longrightarrow>
   pending_violation h x @ '' (allowed: '' @ Text cause @ '')''
     |\<in>| debug (foldl (pending_step h a c) s xs)"
proof (induction xs arbitrary: s)
  case Nil
  then show ?case by simp
next
  case (Cons y ys)
  show ?case
  proof (cases "x = y")
    case False
    with Cons show ?thesis by simp
  next
    case True
    with Cons(3) have "pending_violation h x @ '' (allowed: '' @ Text cause @ '')''
        |\<in>| debug (pending_step h a c s y)"
      by (simp add: pending_step_allowed)
    then show ?thesis
      using pending_loop_mono(4) [of "pending_step h a c s y" h a c ys] by auto
  qed
qed

lemma pending_loop_records_Some:
  "x \<in> set xs \<Longrightarrow> Matches h a x = None \<Longrightarrow> Matches h c x = Some cause \<Longrightarrow>
   pending_violation h x @ '' (open bug: '' @ Text cause @ '')''
     |\<in>| knownViolations (foldl (pending_step h a c) s xs)"
proof (induction xs arbitrary: s)
  case Nil
  then show ?case by simp
next
  case (Cons y ys)
  show ?case
  proof (cases "x = y")
    case False
    with Cons show ?thesis by simp
  next
    case True
    with Cons(3,4) have "pending_violation h x @ '' (open bug: '' @ Text cause @ '')''
        |\<in>| knownViolations (pending_step h a c s y)"
      by (simp add: pending_step_Some)
    then show ?thesis
      using pending_loop_mono(1) [of "pending_step h a c s y" h a c ys] by auto
  qed
qed

lemma pending_loop_records_None:
  "x \<in> set xs \<Longrightarrow> Matches h a x = None \<Longrightarrow> Matches h c x = None \<Longrightarrow>
   pending_violation h x |\<in>| unexpectedViolationsAsFlakes (foldl (pending_step h a c) s xs)"
proof (induction xs arbitrary: s)
  case Nil
  then show ?case by simp
next
  case (Cons y ys)
  show ?case
  proof (cases "x = y")
    case False
    with Cons show ?thesis by simp
  next
    case True
    with Cons(3,4) have "pending_violation h x |\<in>| unexpectedViolationsAsFlakes (pending_step h a c s y)"
      by (simp add: pending_step_None)
    then show ?thesis
      using pending_loop_mono(3) [of "pending_step h a c s y" h a c ys] by auto
  qed
qed

lemma report_Failf_message:
  "Failf m \<in> set (report s) \<Longrightarrow>
   m = ''Unexpected alerts fired or pending after the test run:\<newline>\<newline>''
       @ Join (sorted_list_of_fset (unexpectedViolations s)) ''\<newline>''"
  by (auto simp: report_def Let_def split: if_splits)

lemma alertsTest_records:
  assumes "RunQuery h (watchdogQuery d) = Inr r1" and "RunQuery h (firingAlertQuery d) = Inr r2"
  shows "(\<forall>x \<in> set r2.
            case Matches h firingAlertsWithBugs x of
              Some cause \<Rightarrow>
                firing_violation h x @ '' (open bug: '' @ Text cause @ '')''
                  |\<in>| knownViolations (fst (alertsTest h d))
            | None \<Rightarrow> firing_violation h x |\<in>| unexpectedViolations (fst (alertsTest h d)))
       \<and> (\<forall>r3. RunQuery h pendingAlertQuery = Inr r3 \<longrightarrow>
            (\<forall>x \<in> set r3.
               case Matches h allowedPendingAlerts x of
                 Some cause \<Rightarrow>
                   pending_violation h x @ '' (allowed: '' @ Text cause @ '')''
                     |\<in>| debug (fst (alertsTest h d))
               | None \<Rightarrow>
                  (case Matches h pendingAlertsWithBugs x of
                     Some cause \<Rightarrow>
                       pending_violation h x @ '' (open bug: '' @ Text cause @ '')''
                         |\<in>| knownViolations (fst (alertsTest h d))
                   | None \<Rightarrow>
                       pending_violation h x |\<in>| unexpectedViolationsAsFlakes (fst (alertsTest h d))))
            \<and> snd (alertsTest h d) = report (fst (alertsTest h d))
            \<and> (\<forall>m. Failf m \<in> set (snd (alertsTest h d)) \<longrightarrow>
                 m = ''Unexpected alerts fired or pending after the test run:\<newline>\<newline>''
                     @ Join (sorted_list_of_fset (unexpectedViolations (fst (alertsTest h d)))) ''\<newline>''))"
proof -
  let ?s1 = "watchdog_step NewViolations r1"
  let ?s2 = "foldl (firing_step h firingAlertsWithBugs) ?s1 r2"
  have first: "\<forall>x \<in> set r2.
            case Matches h firingAlertsWithBugs x of
              Some cause \<Rightarrow>
                firing_violation h x @ '' (open bug: '' @ Text cause @ '')''
                  |\<in>| knownViolations (fst (alertsTest h d))
            | None \<Rightarrow> firing_violation h x |\<in>| unexpectedViolations (fst (alertsTest h d))"
  proof (cases "RunQuery h pendingAlertQuery")
    case (Inl e)
    then have s2: "fst (alertsTest h d) = ?s2"
      using assms by (simp add: alertsTest_def watchdog_check_def firing_check_def pending_check_def)
    show ?thesis
    proof
      fix x assume x: "x \<in> set r2"
      show "case Matches h firingAlertsWithBugs x of
              Some cause \<Rightarrow>
                firing_violation h x @ '' (open bug: '' @ Text cause @ '')''
                  |\<in>| knownViolations (fst (alertsTest h d))
            | None \<Rightarrow> firing_violation h x |\<in>| unexpectedViolations (fst (alertsTest h d))"
      proof (cases "Matches h firingAlertsWithBugs x")
        case None
        with firing_loop_records_None [OF x None, of ?s1] s2 show ?thesis by simp
      next
        case (Some cause)
        with firing_loop_records_Some [OF x Some, of ?s1] s2 show ?thesis by simp
      qed
    qed
  next
    case (Inr r3)
    let ?s3 = "foldl (pending_step h allowedPendingAlerts pendingAlertsWithBugs) ?s2 r3"
    have s3: "fst (alertsTest h d) = ?s3"
      using Inr assms by (simp add: alertsTest_def watchdog_check_def firing_check_def pending_check_def)
    have k: "knownViolations ?s2 |\<subseteq>| knownViolations ?s3"
      by (rule pending_loop_mono(1))
    have u: "unexpectedViolations ?s2 = unexpectedViolations ?s3"
      by (rule pending_loop_mono(2))
    show ?thesis
    proof
      fix x assume x: "x \<in> set r2"
      show "case Matches h firingAlertsWithBugs x of
              Some cause \<Rightarrow>
                firing_violation h x @ '' (open bug: '' @ Text cause @ '')''
                  |\<in>| knownViolations (fst (alertsTest h d))
            | None \<Rightarrow> firing_violation h x |\<in>| unexpectedViolations (fst (alertsTest h d))"
      proof (cases "Matches h firingAlertsWithBugs x")
        case None
        with firing_loop_records_None [OF x None, of ?s1] u s3 show ?thesis by simp
      next
        case (Some cause)
        with firing_loop_records_Some [OF x Some, of ?s1] k s3 show ?thesis by auto
      qed
    qed
  qed
  have second: "(\<forall>x \<in> set r3.
               case Matches h allowedPendingAlerts x of
                 Some cause \<Rightarrow>
                   pending_violation h x @ '' (allowed: '' @ Text cause @ '')''
                     |\<in>| debug (fst (alertsTest h d))
               | None \<Rightarrow>
                  (case Matches h pendingAlertsWithBugs x of
                     Some cause \<Rightarrow>
                       pending_violation h x @ '' (open bug: '' @ Text cause @ '')''
                         |\<in>| knownViolations (fst (alertsTest h d))
                   | None \<Rightarrow>
                       pending_violation h x |\<in>| unexpectedViolationsAsFlakes (fst (alertsTest h d))))
            \<and> snd (alertsTest h d) = report (fst (alertsTest h d))
            \<and> (\<forall>m. Failf m \<in> set (snd (alertsTest h d)) \<longrightarrow>
                 m = ''Unexpected alerts fired or pending after the test run:\<newline>\<newline>''
                     @ Join (sorted_list_of_fset (unexpectedViolations (fst (alertsTest h d)))) ''\<newline>'')"
    if r3: "RunQuery h pendingAlertQuery = Inr r3" for r3
  proof -
    let ?s3 = "foldl (pending_step h allowedPendingAlerts pendingAlertsWithBugs) ?s2 r3"
    have run: "alertsTest h d = (?s3, report ?s3)"
      using r3 assms by (simp add: alertsTest_def watchdog_check_def firing_check_def pending_check_def)
    have "\<forall>x \<in> set r3.
               case Matches h allowedPendingAlerts x of
                 Some cause \<Rightarrow>
                   pending_violation h x @ '' (allowed: '' @ Text cause @ '')'' |\<in>| debug ?s3
               | None \<Rightarrow>
                  (case Matches h pendingAlertsWithBugs x of
                     Some cause \<Rightarrow>
                       pending_violation h x @ '' (open bug: '' @ Text cause @ '')''
                         |\<in>| knownViolations ?s3
                   | None \<Rightarrow> pending_violation h x |\<in>| unexpectedViolationsAsFlakes ?s3)"
    proof
      fix x assume x: "x \<in> set r3"
      show "case Matches h allowedPendingAlerts x of
                 Some cause \<Rightarrow>
                   pending_violation h x @ '' (allowed: '' @ Text cause @ '')'' |\<in>| debug ?s3
               | None \<Rightarrow>
                  (case Matches h pendingAlertsWithBugs x of
                     Some cause \<Rightarrow>
                       pending_violation h x @ '' (open bug: '' @ Text cause @ '')''
                         |\<in>| knownViolations ?s3
                   | None \<Rightarrow> pending_violation h x |\<in>| unexpectedViolationsAsFlakes ?s3)"
      proof (cases "Matches h allowedPendingAlerts x")
        case (Some cause)
        with pending_loop_records_allowed [OF x Some, of pendingAlertsWithBugs ?s2]
        show ?thesis by simp
      next
        case None
        note na = this
        show ?thesis
        proof (cases "Matches h pendingAlertsWithBugs x")
          case None
          with na pending_loop_records_None [OF x na None, of ?s2] show ?thesis by simp
        next
          case (Some cause)
          with na pending_loop_records_Some [OF x na Some, of ?s2] show ?thesis by simp
        qed
      qed
    qed
    moreover have "\<forall>m. Failf m \<in> set (report ?s3) \<longrightarrow>
                 m = ''Unexpected alerts fired or pending after the test run:\<newline>\<newline>''
                     @ Join (sorted_list_of_fset (unexpectedViolations ?s3)) ''\<newline>''"
      using report_Failf_message by blast
    ultimately show ?thesis
      unfolding run fst_conv snd_conv by blast
  qed
  from first second show ?thesis by blast
qed

lemma firing_loop_unexpected:
  "fset (unexpectedViolations (foldl (firing_step h c) s xs)) =
     fset (unexpectedViolations s) \<union> firing_violation h ` {x \<in> set xs. Matches h c x = None}"
proof (induction xs arbitrary: s)
  case Nil
  show ?case by simp
next
  case (Cons y ys)
  show ?case
  proof (cases "Matches h c y")
    case None
    then show ?thesis
      by (auto simp: Cons firing_step_None)
  next
    case (Some cause)
    then show ?thesis
      by (auto simp: Cons firing_step_Some)
  qed
qed

lemma watchdog_step_unexpected:
  "fset (unexpectedViolations (watchdog_step NewViolations r1)) =
     (if r1 = [] then {} else {watchdogViolation})"
  by (simp add: watchdog_step_def NewViolations_def)

lemma report_unexpected:
  "unexpectedViolations s \<noteq> {||} \<Longrightarrow>
   report s =
     (if debug s \<noteq> {||}
      then [Logf (''Alerts were detected during test run which are allowed:\<newline>\<newline>''
                  @ Join (sorted_list_of_fset (debug s)) ''\<newline>'')]
      else [])
     @ [Failf (''Unexpected alerts fired or pending after the test run:\<newline>\<newline>''
               @ Join (sorted_list_of_fset (unexpectedViolations s)) ''\<newline>'')]"
  by (simp add: report_def fcard_pos)

text \<open>
  C7. When the Watchdog query and the firing query were answered, every series of the
  firing answer is recorded in the accumulators with which the test ends, whatever the
  series before it were. When the pending query was answered too, every series of its
  answer is recorded, and the unexpected violations at the end are those of all the firing
  series that no condition matches, with that of the Watchdog check. With none of them the
  test raises no failure; with any of them it raises, after the loops and as its last
  event, the one failure whose message is the heading followed by the sorted descriptions
  of all unexpected violations, joined by newlines.
\<close>

theorem collect_before_raise:
  assumes "RunQuery h (watchdogQuery d) = Inr r1" and "RunQuery h (firingAlertQuery d) = Inr r2"
  shows "(\<forall>x \<in> set r2.
            case Matches h firingAlertsWithBugs x of
              Some cause \<Rightarrow>
                firing_violation h x @ '' (open bug: '' @ Text cause @ '')''
                  |\<in>| knownViolations (fst (alertsTest h d))
            | None \<Rightarrow> firing_violation h x |\<in>| unexpectedViolations (fst (alertsTest h d)))
       \<and> (\<forall>r3. RunQuery h pendingAlertQuery = Inr r3 \<longrightarrow>
            (\<forall>x \<in> set r3.
               case Matches h allowedPendingAlerts x of
                 Some cause \<Rightarrow>
                   pending_violation h x @ '' (allowed: '' @ Text cause @ '')''
                     |\<in>| debug (fst (alertsTest h d))
               | None \<Rightarrow>
                  (case Matches h pendingAlertsWithBugs x of
                     Some cause \<Rightarrow>
                       pending_violation h x @ '' (open bug: '' @ Text cause @ '')''
                         |\<in>| knownViolations (fst (alertsTest h d))
                   | None \<Rightarrow>
                       pending_violation h x |\<in>| unexpectedViolationsAsFlakes (fst (alertsTest h d))))
            \<and> fset (unexpectedViolations (fst (alertsTest h d))) =
                (if r1 = [] then {} else {watchdogViolation})
                \<union> firing_violation h ` {x \<in> set r2. Matches h firingAlertsWithBugs x = None}
            \<and> set (sorted_list_of_fset (unexpectedViolations (fst (alertsTest h d)))) =
                (if r1 = [] then {} else {watchdogViolation})
                \<union> firing_violation h ` {x \<in> set r2. Matches h firingAlertsWithBugs x = None}
            \<and> (r1 = [] \<and> (\<forall>x \<in> set r2. Matches h firingAlertsWithBugs x \<noteq> None) \<longrightarrow>
                 \<not> list_ex is_Failf (snd (alertsTest h d)))
            \<and> (r1 \<noteq> [] \<or> (\<exists>x \<in> set r2. Matches h firingAlertsWithBugs x = None) \<longrightarrow>
                 filter (\<lambda>e. \<not> is_Logf e) (snd (alertsTest h d)) =
                   [Failf (''Unexpected alerts fired or pending after the test run:\<newline>\<newline>''
                           @ Join (sorted_list_of_fset (unexpectedViolations (fst (alertsTest h d))))
                               ''\<newline>'')]
                 \<and> last (snd (alertsTest h d)) =
                     Failf (''Unexpected alerts fired or pending after the test run:\<newline>\<newline>''
                            @ Join (sorted_list_of_fset (unexpectedViolations (fst (alertsTest h d))))
                                ''\<newline>''))
            \<and> snd (alertsTest h d) = report (fst (alertsTest h d))
            \<and> (\<forall>m. Failf m \<in> set (snd (alertsTest h d)) \<longrightarrow>
                 m = ''Unexpected alerts fired or pending after the test run:\<newline>\<newline>''
                     @ Join (sorted_list_of_fset (unexpectedViolations (fst (alertsTest h d)))) ''\<newline>''))"
proof -
  let ?s1 = "watchdog_step NewViolations r1"
  let ?s2 = "foldl (firing_step h firingAlertsWithBugs) ?s1 r2"
  let ?U = "(if r1 = [] then {} else {watchdogViolation})
                \<union> firing_violation h ` {x \<in> set r2. Matches h firingAlertsWithBugs x = None}"
  have first: "\<forall>x \<in> set r2.
            case Matches h firingAlertsWithBugs x of
              Some cause \<Rightarrow>
                firing_violation h x @ '' (open bug: '' @ Text cause @ '')''
                  |\<in>| knownViolations (fst (alertsTest h d))
            | None \<Rightarrow> firing_violation h x |\<in>| unexpectedViolations (fst (alertsTest h d))"
    using alertsTest_records [OF assms] by blast
  have second: "(\<forall>x \<in> set r3.
               case Matches h allowedPendingAlerts x of
                 Some cause \<Rightarrow>
                   pending_violation h x @ '' (allowed: '' @ Text cause @ '')''
                     |\<in>| debug (fst (alertsTest h d))
               | None \<Rightarrow>
                  (case Matches h pendingAlertsWithBugs x of
                     Some cause \<Rightarrow>
                       pending_violation h x @ '' (open bug: '' @ Text cause @ '')''
                         |\<in>| knownViolations (fst (alertsTest h d))
                   | None \<Rightarrow>
                       pending_violation h x |\<in>| unexpectedViolationsAsFlakes (fst (alertsTest h d))))
            \<and> snd (alertsTest h d) = report (fst (alertsTest h d))
            \<and> (\<forall>m. Failf m \<in> set (snd (alertsTest h d)) \<longrightarrow>
                 m = ''Unexpected alerts fired or pending after the test run:\<newline>\<newline>''
                     @ Join (sorted_list_of_fset (unexpectedViolations (fst (alertsTest h d)))) ''\<newline>'')"
    if r3: "RunQuery h pendingAlertQuery = Inr r3" for r3
    using alertsTest_records [OF assms] r3 by blast
  have third: "fset (unexpectedViolations (fst (alertsTest h d))) = ?U
            \<and> set (sorted_list_of_fset (unexpectedViolations (fst (alertsTest h d)))) = ?U
            \<and> (r1 = [] \<and> (\<forall>x \<in> set r2. Matches h firingAlertsWithBugs x \<noteq> None) \<longrightarrow>
                 \<not> list_ex is_Failf (snd (alertsTest h d)))
            \<and> (r1 \<noteq> [] \<or> (\<exists>x \<in> set r2. Matches h firingAlertsWithBugs x = None) \<longrightarrow>
                 filter (\<lambda>e. \<not> is_Logf e) (snd (alertsTest h d)) =
                   [Failf (''Unexpected alerts fired or pending after the test run:\<newline>\<newline>''
                           @ Join (sorted_list_of_fset (unexpectedViolations (fst (alertsTest h d))))
                               ''\<newline>'')]
                 \<and> last (snd (alertsTest h d)) =
                     Failf (''Unexpected alerts fired or pending after the test run:\<newline>\<newline>''
                            @ Join (sorted_list_of_fset (unexpectedViolations (fst (alertsTest h d))))
                                ''\<newline>''))"
    if r3: "RunQuery h pendingAlertQuery = Inr r3" for r3
  proof -
    let ?s3 = "foldl (pending_step h allowedPendingAlerts pendingAlertsWithBugs) ?s2 r3"
    have run: "alertsTest h d = (?s3, report ?s3)"
      using assms r3 by (rule alertsTest_success)
    have "unexpectedViolations ?s3 = unexpectedViolations ?s2"
      by (rule pending_loop_mono(2) [symmetric])
    then have u: "fset (unexpectedViolations ?s3) = ?U"
      by (simp only: firing_loop_unexpected watchdog_step_unexpected)
    have l: "set (sorted_list_of_fset (unexpectedViolations ?s3)) = ?U"
      using u by simp
    have none: "\<not> list_ex is_Failf (report ?s3)"
      if "r1 = [] \<and> (\<forall>x \<in> set r2. Matches h firingAlertsWithBugs x \<noteq> None)"
    proof -
      from that have "?U = {}" by auto
      with u have "unexpectedViolations ?s3 = {||}"
        by (metis bot_fset.rep_eq fset_inject)
      then show ?thesis by (simp add: report_hard_fail)
    qed
    have some: "filter (\<lambda>e. \<not> is_Logf e) (report ?s3) =
                   [Failf (''Unexpected alerts fired or pending after the test run:\<newline>\<newline>''
                           @ Join (sorted_list_of_fset (unexpectedViolations ?s3)) ''\<newline>'')]
                 \<and> last (report ?s3) =
                     Failf (''Unexpected alerts fired or pending after the test run:\<newline>\<newline>''
                            @ Join (sorted_list_of_fset (unexpectedViolations ?s3)) ''\<newline>'')"
      if "r1 \<noteq> [] \<or> (\<exists>x \<in> set r2. Matches h firingAlertsWithBugs x = None)"
    proof -
      from that have "?U \<noteq> {}" by auto
      with u have "unexpectedViolations ?s3 \<noteq> {||}"
        by auto
      then show ?thesis by (simp add: report_unexpected)
    qed
    show ?thesis
      unfolding run fst_conv snd_conv using u l none some by blast
  qed
  from first second third show ?thesis by blast
qed

theorem collect_before_raise_witness:
  "RunQuery busy_helper (watchdogQuery ''3s'') = Inr []
   \<and> RunQuery busy_helper (firingAlertQuery ''3s'') = Inr [etcd_firing, wardle_firing, kube_firing]
   \<and> RunQuery busy_helper pendingAlertQuery = Inr [cpu_pending]
   \<and> alertsTest busy_helper ''3s'' =
     (\<lparr>knownViolations =
         {|''alert AggregatedAPIDown fired for 120 seconds with labels: {severity=warning} (open bug: https://bugzilla.redhat.com/show_bug.cgi?id=1933144)''|},
       unexpectedViolations =
         {|''alert KubePodCrashLooping fired for 7 seconds with labels: {severity=warning}'',
           ''alert etcdMembersDown fired for 42 seconds with labels: {severity=critical}''|},
       unexpectedViolationsAsFlakes = {||},
       debug =
         {|''alert HighOverallControlPlaneCPU pending for 1 seconds with labels: {severity=warning} (allowed: high CPU utilization during e2e runs is normal)''|}\<rparr>,
      [Logf ''Alerts were detected during test run which are allowed:\<newline>\<newline>alert HighOverallControlPlaneCPU pending for 1 seconds with labels: {severity=warning} (allowed: high CPU utilization during e2e runs is normal)'',
       Failf ''Unexpected alerts fired or pending after the test run:\<newline>\<newline>alert KubePodCrashLooping fired for 7 seconds with labels: {severity=warning}\<newline>alert etcdMembersDown fired for 42 seconds with labels: {severity=critical}''])"
proof -
  have q1: "RunQuery busy_helper (watchdogQuery ''3s'') = Inr []"
    by (simp add: busy_helper_def example_RunQuery)
  have q2: "RunQuery busy_helper (firingAlertQuery ''3s'') = Inr [etcd_firing, wardle_firing, kube_firing]"
    by (simp add: busy_helper_def example_RunQuery)
  have q3: "RunQuery busy_helper pendingAlertQuery = Inr [cpu_pending]"
    by (simp add: busy_helper_def example_RunQuery)
  have run: "alertsTest busy_helper ''3s'' =
     (\<lparr>knownViolations =
         {|''alert AggregatedAPIDown fired for 120 seconds with labels: {severity=warning} (open bug: https://bugzilla.redhat.com/show_bug.cgi?id=1933144)''|},
       unexpectedViolations =
         {|''alert KubePodCrashLooping fired for 7 seconds with labels: {severity=warning}'',
           ''alert etcdMembersDown fired for 42 seconds with labels: {severity=critical}''|},
       unexpectedViolationsAsFlakes = {||},
       debug =
         {|''alert HighOverallControlPlaneCPU pending for 1 seconds with labels: {severity=warning} (allowed: high CPU utilization during e2e runs is normal)''|}\<rparr>,
      [Logf ''Alerts were detected during test run which are allowed:\<newline>\<newline>alert HighOverallControlPlaneCPU pending for 1 seconds with labels: {severity=warning} (allowed: high CPU utilization during e2e runs is normal)'',
       Failf ''Unexpected alerts fired or pending after the test run:\<newline>\<newline>alert KubePodCrashLooping fired for 7 seconds with labels: {severity=warning}\<newline>alert etcdMembersDown fired for 42 seconds with labels: {severity=critical}''])"
    by code_simp
  show ?thesis
    using collect_before_raise [OF q1 q2] q1 q2 q3 run
    by (simp only: simp_thms)
qed











end
